theory Spec2Isabelle
  imports Main
begin

section \<open>Python values\<close>

text \<open>
  A Python \<open>str\<close> is a sequence of Unicode code points and \<open>len\<close> counts code points,
  so a string is a list of code points. \<open>str\<close> embeds an ASCII literal of the source.
\<close>

type_synonym pystr = "nat list"

definition str :: "string \<Rightarrow> pystr" where
  "str cs = map of_char cs"

text \<open>
  The values that travel through the serializers and the ORM calls of the source: \<open>None\<close>,
  booleans, integers, strings, lists and dicts. A dict keeps its items in insertion order,
  so it is an association list; its keys are unique.
\<close>

datatype pyval =
    PNone
  | PBool bool
  | PInt int
  | PStr pystr
  | PList "pyval list"
  | PDict "(pystr \<times> pyval) list"

type_synonym pydict = "(pystr \<times> pyval) list"

text \<open>Python's truth value of an object, as \<open>not x\<close> and \<open>if x\<close> test it.\<close>

fun truthy :: "pyval \<Rightarrow> bool" where
  "truthy PNone = False"
| "truthy (PBool b) = b"
| "truthy (PInt i) = (i \<noteq> 0)"
| "truthy (PStr s) = (s \<noteq> [])"
| "truthy (PList xs) = (xs \<noteq> [])"
| "truthy (PDict d) = (d \<noteq> [])"

text \<open>\<open>d.get(k)\<close>: the value stored under \<open>k\<close>, \<open>None\<close> when the key is missing.\<close>

definition dict_get :: "pydict \<Rightarrow> pystr \<Rightarrow> pyval" where
  "dict_get d k = (case map_of d k of None \<Rightarrow> PNone | Some v \<Rightarrow> v)"

text \<open>
  \<open>d.pop(k, default)\<close>: the value stored under \<open>k\<close> (the default when the key is missing)
  and the dict without that key.
\<close>

definition dict_pop :: "pydict \<Rightarrow> pystr \<Rightarrow> pyval \<Rightarrow> pyval \<times> pydict" where
  "dict_pop d k dflt =
     ((case map_of d k of None \<Rightarrow> dflt | Some v \<Rightarrow> v), filter (\<lambda>kv. fst kv \<noteq> k) d)"

section \<open>Errors\<close>

text \<open>
  The exceptions the modelled code raises or lets through: the \<open>ValidationError\<close> of
  the serializers and of the filter backend, with its payload, the ORM's
  \<open>MultipleObjectsReturned\<close> of
  \<open>get_or_create\<close>, the \<open>Http404\<close> of \<open>get_object\<close>, the paginator's \<open>NotFound\<close>, and
  Python's \<open>TypeError\<close> for a value of the wrong shape.
\<close>

datatype error =
    ValidationError pyval
  | MultipleObjectsReturned
  | Http404
  | NotFound
  | TypeError

section \<open>Serializer validation (serializer-example.py)\<close>

text \<open>The messages of the source, as code points.\<close>

definition msg_title_too_short :: pystr where
  "msg_title_too_short =
     [26631, 39064, 33267, 23569, 32, 53, 32, 20010, 23383, 31526]"

definition msg_summary_required :: pystr where
  "msg_summary_required =
     [21457, 24067, 25991, 31456, 24517, 39035, 25552, 20379, 25688, 35201]"

text \<open>\<open>ArticleSerializer.validate_title\<close>.\<close>

definition validate_title :: "pystr \<Rightarrow> error + pystr" where
  "validate_title value =
     (if length value < 5 then Inl (ValidationError (PStr msg_title_too_short))
      else Inr value)"

text \<open>
  \<open>ArticleSerializer.validate\<close>. Comparing with the literal \<open>"published"\<close> is true for
  that string only, whatever the type of the stored value.
\<close>

definition validate :: "pydict \<Rightarrow> error + pydict" where
  "validate attrs =
     (if dict_get attrs (str ''status'') = PStr (str ''published'')
         \<and> \<not> truthy (dict_get attrs (str ''summary''))
      then Inl (ValidationError (PDict [(str ''summary'', PStr msg_summary_required)]))
      else Inr attrs)"

text \<open>
  \<open>{**a, **b}\<close>: the items of \<open>a\<close>, each key keeping its place and taking the value \<open>b\<close>
  gives it when \<open>b\<close> has the key, followed by the items of \<open>b\<close> under new keys.
\<close>

definition dict_merge :: "pydict \<Rightarrow> pydict \<Rightarrow> pydict" where
  "dict_merge a b =
     map (\<lambda>kv. (fst kv, case map_of b (fst kv) of None \<Rightarrow> snd kv | Some v \<Rightarrow> v)) a
     @ filter (\<lambda>kv. map_of a (fst kv) = None) b"

text \<open>
  Iterating a value with \<open>for x in v\<close>: a list yields its elements, a string its
  characters, a dict its keys; the other values are not iterable.
\<close>

fun py_iter :: "pyval \<Rightarrow> error + pyval list" where
  "py_iter (PList xs) = Inr xs"
| "py_iter (PStr s) = Inr (map (\<lambda>c. PStr [c]) s)"
| "py_iter (PDict d) = Inr (map (\<lambda>kv. PStr (fst kv)) d)"
| "py_iter _ = Inl TypeError"

section \<open>The database\<close>

text \<open>
  The models \<open>Article\<close> and \<open>Tag\<close> are imported by the source, not declared in it. A model
  instance (and a table row) is its primary key and the value of each attribute, \<open>None\<close>
  where nothing was stored. A foreign key holds the primary key of the row it points to:
  \<open>author\<close> is \<open>PInt\<close> of the user's id. The many-to-many field \<open>Article.tags\<close> is the
  table \<open>article_tags\<close> of (article id, tag id) pairs.
\<close>

record obj =
  pk :: int
  attrs :: "pystr \<Rightarrow> pyval"

record db =
  article_rows :: "obj list"
  tag_rows :: "obj list"
  article_tags :: "(int \<times> int) list"

record user =
  user_id :: int
  is_staff :: bool

text \<open>
  A request that reaches an action: \<open>permission_classes = [IsAuthenticated]\<close> turns the
  others away before, so the request has a user. \<open>page\<close> is its \<open>page\<close> query parameter, 1
  when it is not given.

  The rest of the query string acts through the view's \<open>filter_backends\<close>:
  \<open>DjangoFilterBackend\<close> on \<open>filterset_fields = ["status", "author"]\<close>, \<open>SearchFilter\<close> on
  \<open>search_fields = ["title", "content"]\<close> and \<open>OrderingFilter\<close>. The first rejects a
  parameter it cannot read with a \<open>ValidationError\<close>; otherwise the three keep the rows
  that the parameters select and order them. Which values are readable and which rows a
  value selects rests on the models and the database, which are outside the source, so
  the request carries the outcome: \<open>query_rejected\<close> is the payload of the error, if any,
  and \<open>query_selects\<close> tells the rows that the \<open>status\<close>, \<open>author\<close> and \<open>search\<close> parameters
  select (every row when the request has none of them).
\<close>

record request =
  user :: user
  page :: nat
  query_rejected :: "pyval option"
  query_selects :: "obj \<Rightarrow> bool"

text \<open>\<open>setattr(instance, attr, value)\<close>.\<close>

definition setattr :: "obj \<Rightarrow> pystr \<Rightarrow> pyval \<Rightarrow> obj" where
  "setattr instance attr v = instance\<lparr>attrs := (attrs instance)(attr := v)\<rparr>"

text \<open>
  \<open>Model.objects.create(**kwargs)\<close>: a new row under a primary key that no row has, its
  attributes the model's defaults overwritten by the keyword arguments. The defaults are
  a parameter, since the models are declared outside the source.
\<close>

definition fresh_pk :: "obj list \<Rightarrow> int" where
  "fresh_pk rows = fold max (map pk rows) 0 + 1"

definition objects_create :: "(pystr \<Rightarrow> pyval) \<Rightarrow> obj list \<Rightarrow> pydict \<Rightarrow> obj list \<times> obj" where
  "objects_create defaults rows kwargs =
     (let instance = \<lparr>pk = fresh_pk rows,
                       attrs = fold (\<lambda>kv f. f(fst kv := snd kv)) kwargs defaults\<rparr>
      in (rows @ [instance], instance))"

text \<open>
  \<open>Model.objects.get_or_create(**kwargs)\<close>: the one row whose attributes equal every
  keyword argument, with \<open>False\<close>; a new row made from the arguments, with \<open>True\<close>, when
  no row does; \<open>MultipleObjectsReturned\<close> when several do.
\<close>

definition matches :: "pydict \<Rightarrow> obj \<Rightarrow> bool" where
  "matches kwargs row = list_all (\<lambda>kv. attrs row (fst kv) = snd kv) kwargs"

definition get_or_create ::
  "(pystr \<Rightarrow> pyval) \<Rightarrow> obj list \<Rightarrow> pydict \<Rightarrow> error + (obj list \<times> obj \<times> bool)" where
  "get_or_create defaults rows kwargs =
     (case filter (matches kwargs) rows of
        [] \<Rightarrow> (let (rows', instance) = objects_create defaults rows kwargs
               in Inr (rows', instance, True))
      | [instance] \<Rightarrow> Inr (rows, instance, False)
      | _ \<Rightarrow> Inl MultipleObjectsReturned)"

text \<open>
  \<open>instance.save()\<close> writes every attribute of the instance to its row, and inserts the
  row when the table has none under that key. \<open>instance.save(update_fields=fs)\<close> writes
  the attributes named in \<open>fs\<close> only.
\<close>

definition save :: "obj list \<Rightarrow> obj \<Rightarrow> obj list" where
  "save rows instance =
     (if list_ex (\<lambda>r. pk r = pk instance) rows
      then map (\<lambda>r. if pk r = pk instance then instance else r) rows
      else rows @ [instance])"

definition save_update_fields :: "obj list \<Rightarrow> obj \<Rightarrow> pystr list \<Rightarrow> obj list" where
  "save_update_fields rows instance fs =
     map (\<lambda>r. if pk r = pk instance
               then r\<lparr>attrs := (\<lambda>k. if k \<in> set fs then attrs instance k else attrs r k)\<rparr>
               else r) rows"

text \<open>
  \<open>article.tags.add(tag)\<close> relates the two rows unless they are related already;
  \<open>article.tags.clear()\<close> removes every relation of the article.
\<close>

definition tags_add :: "db \<Rightarrow> obj \<Rightarrow> obj \<Rightarrow> db" where
  "tags_add d article tag =
     (if (pk article, pk tag) \<in> set (article_tags d) then d
      else d\<lparr>article_tags := article_tags d @ [(pk article, pk tag)]\<rparr>)"

definition tags_clear :: "db \<Rightarrow> obj \<Rightarrow> db" where
  "tags_clear d article =
     d\<lparr>article_tags := filter (\<lambda>p. fst p \<noteq> pk article) (article_tags d)\<rparr>"

section \<open>The view class (viewset-example.py)\<close>

text \<open>
  A response is its HTTP status code and its body. A paginated body is the total count
  and the page's results (the links to the neighbouring pages are left out).
\<close>

datatype body = Data pyval | Paginated nat "pyval list"

record response =
  status_code :: nat
  data :: body

definition HTTP_200_OK :: nat where
  "HTTP_200_OK = 200"

definition HTTP_400_BAD_REQUEST :: nat where
  "HTTP_400_BAD_REQUEST = 400"

definition msg_already_published :: pystr where
  "msg_already_published = [25991, 31456, 24050, 21457, 24067]"

text \<open>
  The base class's \<open>get_queryset\<close> returns the class attribute \<open>queryset\<close>:
  \<open>Article.objects.select_related("author").prefetch_related("tags")\<close>, every article
  (the two calls change how related rows are fetched, not which articles are returned).
\<close>

definition ModelViewSet_get_queryset :: "db \<Rightarrow> obj list" where
  "ModelViewSet_get_queryset d = article_rows d"

text \<open>\<open>ArticleViewSet.get_queryset\<close>.\<close>

definition get_queryset :: "request \<Rightarrow> db \<Rightarrow> obj list" where
  "get_queryset req d =
     (let queryset = ModelViewSet_get_queryset d
      in if \<not> is_staff (user req)
         then filter (\<lambda>a. attrs a (str ''status'') = PStr (str ''published'')) queryset
         else queryset)"

text \<open>
  The base class's \<open>filter_queryset\<close>: the filter backends applied to a queryset. (The
  order that \<open>OrderingFilter\<close> gives the rows is left out: the one caller below looks a row
  up by its key.)
\<close>

definition filter_queryset :: "request \<Rightarrow> obj list \<Rightarrow> error + obj list" where
  "filter_queryset req queryset =
     (case query_rejected req of
        Some payload \<Rightarrow> Inl (ValidationError payload)
      | None \<Rightarrow> Inr (filter (query_selects req) queryset))"

text \<open>
  The base class's \<open>get_object\<close>: \<open>filter_queryset(get_queryset())\<close>, then the row under the
  primary key of the URL, \<open>Http404\<close> when there is none. (\<open>IsAuthenticated\<close> has no check
  of its own on the object.)
\<close>

definition get_object :: "request \<Rightarrow> db \<Rightarrow> int \<Rightarrow> error + obj" where
  "get_object req d key =
     (case filter_queryset req (get_queryset req d) of
        Inl e \<Rightarrow> Inl e
      | Inr queryset \<Rightarrow>
          (case filter (\<lambda>a. pk a = key) queryset of
             [] \<Rightarrow> Inl Http404
           | [a] \<Rightarrow> Inr a
           | _ \<Rightarrow> Inl MultipleObjectsReturned))"

text \<open>
  \<open>serializer.save(**kwargs)\<close> on a serializer without an instance: the serializer's
  \<open>create\<close> on the validated data merged with the keyword arguments. \<open>create\<close> is a
  parameter.
\<close>

definition serializer_save ::
  "(db \<Rightarrow> pydict \<Rightarrow> db \<times> (error + obj)) \<Rightarrow> pydict \<Rightarrow> pydict \<Rightarrow> db \<Rightarrow> db \<times> (error + obj)" where
  "serializer_save create_fn validated_data kwargs d =
     create_fn d (dict_merge validated_data kwargs)"

text \<open>The base class's \<open>perform_create\<close> is \<open>serializer.save()\<close>.\<close>

definition ModelViewSet_perform_create ::
  "(db \<Rightarrow> pydict \<Rightarrow> db \<times> (error + obj)) \<Rightarrow> pydict \<Rightarrow> db \<Rightarrow> db \<times> (error + obj)" where
  "ModelViewSet_perform_create create_fn validated_data d =
     serializer_save create_fn validated_data [] d"

text \<open>\<open>ArticleViewSet.perform_create\<close>.\<close>

definition perform_create ::
  "(db \<Rightarrow> pydict \<Rightarrow> db \<times> (error + obj)) \<Rightarrow> request \<Rightarrow> pydict \<Rightarrow> db \<Rightarrow> db \<times> (error + obj)" where
  "perform_create create_fn req validated_data d =
     serializer_save create_fn validated_data
       [(str ''author'', PInt (user_id (user req)))] d"

text \<open>
  \<open>ArticleViewSet.publish\<close>. The result is the database after the call and the response,
  or the exception of \<open>get_object\<close>. \<open>ser\<close> is \<open>get_serializer(article).data\<close>, a
  parameter.
\<close>

definition publish ::
  "(db \<Rightarrow> obj \<Rightarrow> pyval) \<Rightarrow> request \<Rightarrow> db \<Rightarrow> int \<Rightarrow> db \<times> (error + response)" where
  "publish ser req d key =
     (case get_object req d key of
        Inl e \<Rightarrow> (d, Inl e)
      | Inr article \<Rightarrow>
          if attrs article (str ''status'') = PStr (str ''published'')
          then (d, Inr \<lparr>status_code = HTTP_400_BAD_REQUEST,
                        data = Data (PDict [(str ''detail'', PStr msg_already_published)])\<rparr>)
          else
            let article' = setattr article (str ''status'') (PStr (str ''published''));
                d' = d\<lparr>article_rows :=
                         save_update_fields (article_rows d) article' [str ''status'']\<rparr>
            in (d', Inr \<lparr>status_code = HTTP_200_OK, data = Data (ser d' article')\<rparr>))"

text \<open>
  \<open>paginate_queryset\<close> of the base class: \<open>None\<close> when the view has no page size
  configured; otherwise page \<open>page\<close> of the queryset, and \<open>NotFound\<close> for a page that does
  not exist (page 1 always exists).
\<close>

definition paginate_queryset :: "nat option \<Rightarrow> request \<Rightarrow> obj list \<Rightarrow> error + obj list option" where
  "paginate_queryset page_size req queryset =
     (case page_size of
        None \<Rightarrow> Inr None
      | Some n \<Rightarrow>
          if n = 0 then Inr None
          else if page req = 1
               \<or> (1 \<le> page req \<and> (page req - 1) * n < length queryset)
          then Inr (Some (take n (drop ((page req - 1) * n) queryset)))
          else Inl NotFound)"

text \<open>\<open>ArticleViewSet.my_articles\<close>. It reads the database and does not change it.\<close>

definition my_articles ::
  "(db \<Rightarrow> obj \<Rightarrow> pyval) \<Rightarrow> nat option \<Rightarrow> request \<Rightarrow> db \<Rightarrow> error + response" where
  "my_articles ser page_size req d =
     (let articles = filter (\<lambda>a. attrs a (str ''author'') = PInt (user_id (user req)))
                       (get_queryset req d)
      in case paginate_queryset page_size req articles of
           Inl e \<Rightarrow> Inl e
         | Inr (Some pg) \<Rightarrow>
             Inr \<lparr>status_code = HTTP_200_OK,
                  data = Paginated (length articles) (map (ser d) pg)\<rparr>
         | Inr None \<Rightarrow>
             Inr \<lparr>status_code = HTTP_200_OK, data = Data (PList (map (ser d) articles))\<rparr>)"

section \<open>Nested create and update (serializer-example.py)\<close>

text \<open>
  The loop \<open>for tag_data in tags_data: tag, _ = Tag.objects.get_or_create(**tag_data);
  article.tags.add(tag)\<close> of both \<open>create\<close> and \<open>update\<close>. \<open>**tag_data\<close> needs a dict.
  An exception leaves the database as the loop had changed it so far.
\<close>

fun attach_tags :: "(pystr \<Rightarrow> pyval) \<Rightarrow> db \<Rightarrow> obj \<Rightarrow> pyval list \<Rightarrow> db \<times> (error + unit)" where
  "attach_tags tag_defaults d article [] = (d, Inr ())"
| "attach_tags tag_defaults d article (tag_data # rest) =
     (case tag_data of
        PDict kwargs \<Rightarrow>
          (case get_or_create tag_defaults (tag_rows d) kwargs of
             Inl e \<Rightarrow> (d, Inl e)
           | Inr (rows', tag, created) \<Rightarrow>
               attach_tags tag_defaults
                 (tags_add (d\<lparr>tag_rows := rows'\<rparr>) article tag) article rest)
      | _ \<Rightarrow> (d, Inl TypeError))"

text \<open>\<open>ArticleCreateSerializer.create\<close>.\<close>

definition create ::
  "(pystr \<Rightarrow> pyval) \<Rightarrow> (pystr \<Rightarrow> pyval) \<Rightarrow> db \<Rightarrow> pydict \<Rightarrow> db \<times> (error + obj)" where
  "create article_defaults tag_defaults d validated_data =
     (let (tags_data, validated_data') = dict_pop validated_data (str ''tags'') (PList []);
          (rows', article) = objects_create article_defaults (article_rows d) validated_data';
          d1 = d\<lparr>article_rows := rows'\<rparr>
      in case py_iter tags_data of
           Inl e \<Rightarrow> (d1, Inl e)
         | Inr tds \<Rightarrow>
             (case attach_tags tag_defaults d1 article tds of
                (d2, Inl e) \<Rightarrow> (d2, Inl e)
              | (d2, Inr _) \<Rightarrow> (d2, Inr article)))"

text \<open>\<open>ArticleCreateSerializer.update\<close>.\<close>

definition update ::
  "(pystr \<Rightarrow> pyval) \<Rightarrow> db \<Rightarrow> obj \<Rightarrow> pydict \<Rightarrow> db \<times> (error + obj)" where
  "update tag_defaults d instance validated_data =
     (let (tags_data, validated_data') = dict_pop validated_data (str ''tags'') PNone;
          instance' = fold (\<lambda>kv i. setattr i (fst kv) (snd kv)) validated_data' instance;
          d1 = d\<lparr>article_rows := save (article_rows d) instance'\<rparr>
      in if tags_data \<noteq> PNone
         then
           (let d2 = tags_clear d1 instance'
            in case py_iter tags_data of
                 Inl e \<Rightarrow> (d2, Inl e)
               | Inr tds \<Rightarrow>
                   (case attach_tags tag_defaults d2 instance' tds of
                      (d3, Inl e) \<Rightarrow> (d3, Inl e)
                    | (d3, Inr _) \<Rightarrow> (d3, Inr instance')))
         else (d1, Inr instance'))"

section \<open>What the nested serializer is given and what it leaves behind\<close>

text \<open>\<open>article.tags.all()\<close>: the tag rows related to the article.\<close>

definition tags_of :: "db \<Rightarrow> obj \<Rightarrow> obj list" where
  "tags_of d article = filter (\<lambda>t. (pk article, pk t) \<in> set (article_tags d)) (tag_rows d)"

text \<open>
  The validated form of one tag. \<open>TagSerializer\<close> declares the fields \<open>id\<close>, \<open>name\<close> and
  \<open>slug\<close>; \<open>slug\<close> is read-only by declaration and \<open>id\<close>, the primary key, by the
  framework's default, so a validated tag is a dict with the single key \<open>name\<close>.
\<close>

fun is_tag_data :: "pyval \<Rightarrow> bool" where
  "is_tag_data (PDict [(k, n)]) = (k = str ''name'')"
| "is_tag_data _ = False"

text \<open>The names a list of tag dicts asks for, in order.\<close>

fun requested_names :: "pyval list \<Rightarrow> pyval list" where
  "requested_names [] = []"
| "requested_names (PDict kwargs # rest) = dict_get kwargs (str ''name'') # requested_names rest"
| "requested_names (_ # rest) = requested_names rest"

text \<open>\<open>ArticleCreateSerializer.Meta.fields\<close>.\<close>

definition ArticleCreateSerializer_fields :: "pystr list" where
  "ArticleCreateSerializer_fields =
     [str ''title'', str ''content'', str ''summary'', str ''status'', str ''tags'']"

text \<open>
  The validated data that \<open>ArticleCreateSerializer\<close> passes to \<open>create\<close> and \<open>update\<close>: a
  dict whose keys are fields of the serializer (all of them, or some on a partial
  update) and whose \<open>tags\<close>, when present, is a list of validated tags.
\<close>

definition validated :: "pydict \<Rightarrow> bool" where
  "validated vd \<longleftrightarrow>
     distinct (map fst vd)
     \<and> set (map fst vd) \<subseteq> set ArticleCreateSerializer_fields
     \<and> (case map_of vd (str ''tags'') of
          None \<Rightarrow> True
        | Some (PList tds) \<Rightarrow> list_all is_tag_data tds
        | Some _ \<Rightarrow> False)"

text \<open>The list the loop over \<open>tags_data\<close> runs through, for validated data.\<close>

definition tags_list :: "pydict \<Rightarrow> pyval list" where
  "tags_list vd = (case map_of vd (str ''tags'') of Some (PList tds) \<Rightarrow> tds | _ \<Rightarrow> [])"

text \<open>
  Integrity of the database: primary keys are unique in each table, no two tags have the
  same name, and the relation refers to rows that exist.
\<close>

definition tag_table_ok :: "obj list \<Rightarrow> bool" where
  "tag_table_ok rows \<longleftrightarrow>
     distinct (map pk rows) \<and> distinct (map (\<lambda>t. attrs t (str ''name'')) rows)"

definition wf_db :: "db \<Rightarrow> bool" where
  "wf_db d \<longleftrightarrow>
     distinct (map pk (article_rows d))
     \<and> tag_table_ok (tag_rows d)
     \<and> fst ` set (article_tags d) \<subseteq> pk ` set (article_rows d)
     \<and> snd ` set (article_tags d) \<subseteq> pk ` set (tag_rows d)"

section \<open>Filter declarations (filters-example.py)\<close>

text \<open>
  A filter set is a class whose attributes are filter objects; nothing in the file runs
  a filter. A declaration is kept as data: the attribute's name, which is the query
  parameter, the filter class, and the keyword arguments of the source, \<open>None\<close> where
  the source gives none. The choices carry their labels as code points.
\<close>

datatype filter_class =
    ChoiceFilter
  | MultipleChoiceFilter
  | NumberFilter
  | DateFilter
  | CharFilter
  | BooleanFilter
  | DateFromToRangeFilter
  | BaseInFilter
  | OrderingFilter
  | ModelFieldFilter

record filter_decl =
  param :: string
  cls :: filter_class
  field_name :: "string option"
  lookup_expr :: "string option"
  filter_method :: "string option"
  exclude :: bool
  choices :: "(string \<times> pystr) list"
  ordering_fields :: "(string \<times> string) list"

text \<open>A declaration without keyword arguments; the source's arguments are record updates.\<close>

definition Filter :: "string \<Rightarrow> filter_class \<Rightarrow> filter_decl" where
  "Filter name c =
     \<lparr>param = name, cls = c, field_name = None, lookup_expr = None, filter_method = None,
      exclude = False, choices = [], ordering_fields = []\<rparr>"

text \<open>
  A filter set: its declared filters in the order of the source, and \<open>Meta.fields\<close> as
  pairs of a model field and its lookups (a plain list of names gives each the lookup
  \<open>exact\<close>).
\<close>

record filterset =
  declared :: "filter_decl list"
  meta_fields :: "(string \<times> string list) list"

definition ArticleFilter :: filterset where
  "ArticleFilter =
     \<lparr>declared =
        [(Filter ''status'' ChoiceFilter)
           \<lparr>choices := [(''draft'', [33609, 31295]),
                        (''published'', [24050, 21457, 24067]),
                        (''archived'', [24050, 24402, 26723])]\<rparr>,
         (Filter ''author'' NumberFilter)\<lparr>field_name := Some ''author_id''\<rparr>,
         (Filter ''created_after'' DateFilter)
           \<lparr>field_name := Some ''created_at'', lookup_expr := Some ''gte''\<rparr>,
         (Filter ''created_before'' DateFilter)
           \<lparr>field_name := Some ''created_at'', lookup_expr := Some ''lte''\<rparr>,
         (Filter ''title'' CharFilter)
           \<lparr>field_name := Some ''title'', lookup_expr := Some ''icontains''\<rparr>,
         (Filter ''author_name'' CharFilter)
           \<lparr>field_name := Some ''author__username'', lookup_expr := Some ''icontains''\<rparr>,
         (Filter ''tag'' CharFilter)
           \<lparr>field_name := Some ''tags__name'', lookup_expr := Some ''iexact''\<rparr>],
      meta_fields =
        [(''status'', [''exact'']), (''author'', [''exact'']),
         (''created_after'', [''exact'']), (''created_before'', [''exact''])]\<rparr>"

definition TrialFilter :: filterset where
  "TrialFilter =
     \<lparr>declared =
        [(Filter ''status'' MultipleChoiceFilter)
           \<lparr>choices := [(''recruiting'', [25307, 21215, 20013]),
                        (''active'', [36827, 34892, 20013]),
                        (''completed'', [24050, 23436, 25104])]\<rparr>,
         (Filter ''budget_min'' NumberFilter)
           \<lparr>field_name := Some ''budget'', lookup_expr := Some ''gte''\<rparr>,
         (Filter ''budget_max'' NumberFilter)
           \<lparr>field_name := Some ''budget'', lookup_expr := Some ''lte''\<rparr>,
         (Filter ''is_public'' BooleanFilter)\<lparr>field_name := Some ''is_public''\<rparr>,
         (Filter ''created_date_range'' DateFromToRangeFilter)
           \<lparr>field_name := Some ''created_at''\<rparr>,
         (Filter ''pi_name'' CharFilter)
           \<lparr>field_name := Some ''principal_investigator__name'',
            lookup_expr := Some ''icontains''\<rparr>,
         (Filter ''has_participants'' BooleanFilter)
           \<lparr>filter_method := Some ''filter_has_participants''\<rparr>,
         (Filter ''ordering'' OrderingFilter)
           \<lparr>ordering_fields := [(''created_at'', ''created_at''), (''updated_at'', ''updated_at''),
                       (''budget'', ''budget'')]\<rparr>],
      meta_fields =
        [(''status'', [''exact'', ''in'']),
         (''budget'', [''gte'', ''lte'', ''exact'']),
         (''created_at'', [''gte'', ''lte''])]\<rparr>"

definition AdvancedTrialFilter :: filterset where
  "AdvancedTrialFilter =
     \<lparr>declared =
        [(Filter ''search'' CharFilter)\<lparr>filter_method := Some ''filter_search''\<rparr>,
         (Filter ''created_year'' NumberFilter)\<lparr>field_name := Some ''created_at__year''\<rparr>,
         (Filter ''created_month'' NumberFilter)\<lparr>field_name := Some ''created_at__month''\<rparr>,
         (Filter ''status_in'' BaseInFilter)\<lparr>field_name := Some ''status''\<rparr>,
         (Filter ''exclude_status'' CharFilter)
           \<lparr>field_name := Some ''status'', exclude := True\<rparr>],
      meta_fields = []\<rparr>"

text \<open>
  What the filter framework does with a declaration. A filter with a \<open>method\<close> argument
  (\<open>filter_method\<close> here) calls that function of the filter set; an \<open>OrderingFilter\<close>
  orders the result; a
  \<open>DateFromToRangeFilter\<close> compares with the two ends of a range; a \<open>BaseInFilter\<close> has
  the default lookup \<open>in\<close>, every other filter \<open>exact\<close>. The model field is \<open>field_name\<close>,
  or the attribute's name when none is given.
\<close>

datatype lookup = Lookup string | RangeLookup | Method string | Ordering

definition lookup_of :: "filter_decl \<Rightarrow> lookup" where
  "lookup_of f =
     (case filter_method f of
        Some m \<Rightarrow> Method m
      | None \<Rightarrow>
          (case cls f of
             OrderingFilter \<Rightarrow> Ordering
           | DateFromToRangeFilter \<Rightarrow> RangeLookup
           | BaseInFilter \<Rightarrow> Lookup (case lookup_expr f of None \<Rightarrow> ''in'' | Some l \<Rightarrow> l)
           | _ \<Rightarrow> Lookup (case lookup_expr f of None \<Rightarrow> ''exact'' | Some l \<Rightarrow> l)))"

definition field_of :: "filter_decl \<Rightarrow> string" where
  "field_of f = (case field_name f of None \<Rightarrow> param f | Some n \<Rightarrow> n)"

text \<open>
  The filters that \<open>Meta.fields\<close> adds: one for each field and lookup, named after the
  field (with the lookup appended unless it is \<open>exact\<close>), unless a declared filter has that
  name. Their class is chosen by the framework from the model field.
\<close>

definition meta_filter_name :: "string \<Rightarrow> string \<Rightarrow> string" where
  "meta_filter_name fld l = (if l = ''exact'' then fld else fld @ ''__'' @ l)"

definition meta_filters :: "filterset \<Rightarrow> filter_decl list" where
  "meta_filters fs =
     concat (map (\<lambda>fl.
        concat (map (\<lambda>l.
           if meta_filter_name (fst fl) l \<in> set (map param (declared fs)) then []
           else [(Filter (meta_filter_name (fst fl) l) ModelFieldFilter)
                   \<lparr>field_name := Some (fst fl), lookup_expr := Some l\<rparr>])
         (snd fl)))
       (meta_fields fs))"

definition filters_of :: "filterset \<Rightarrow> filter_decl list" where
  "filters_of fs = declared fs @ meta_filters fs"

definition all_filters :: "filter_decl list" where
  "all_filters = filters_of ArticleFilter @ filters_of TrialFilter @ filters_of AdvancedTrialFilter"

definition get_filter :: "filterset \<Rightarrow> string \<Rightarrow> filter_decl option" where
  "get_filter fs name = find (\<lambda>f. param f = name) (filters_of fs)"

section \<open>Routes of the view class (viewset-example.py)\<close>

text \<open>
  The two \<open>@action\<close> decorators of \<open>ArticleViewSet\<close>: the method's name, \<open>detail\<close> and
  \<open>methods\<close>.
\<close>

datatype http_method = GET | POST | PUT | PATCH | DELETE

record action_decl =
  action_name :: string
  detail :: bool
  methods :: "http_method list"

definition extra_actions :: "action_decl list" where
  "extra_actions =
     [\<lparr>action_name = ''publish'', detail = True, methods = [POST]\<rparr>,
      \<lparr>action_name = ''my_articles'', detail = False, methods = [GET]\<rparr>]"

text \<open>
  The actions \<open>ModelViewSet\<close> brings, as the class's docstring lists them, each with
  the HTTP verb and the route the framework's router gives it: the collection and the
  single record.
\<close>

definition list_route :: "(http_method \<times> string) list" where
  "list_route = [(GET, ''list''), (POST, ''create'')]"

definition detail_route :: "(http_method \<times> string) list" where
  "detail_route = [(GET, ''retrieve''), (PUT, ''update''), (PATCH, ''partial_update''),
                   (DELETE, ''destroy'')]"

text \<open>
  The router's resolution of a request, given the path below the prefix the view set is
  registered under, split at the slashes. It tries in this order the collection, the
  list-level extra actions, the single record and the detail-level extra actions; an
  extra action is routed under its method's name. A route that matches the path and does
  not map the HTTP method answers 405. A lookup value is not empty and has no slash and
  no dot.
\<close>

datatype resolution = Handler string | MethodNotAllowed | NoRoute

definition by_method :: "(http_method \<times> string) list \<Rightarrow> http_method \<Rightarrow> resolution" where
  "by_method mapping m =
     (case map_of mapping m of Some n \<Rightarrow> Handler n | None \<Rightarrow> MethodNotAllowed)"

definition action_mapping :: "action_decl \<Rightarrow> (http_method \<times> string) list" where
  "action_mapping a = map (\<lambda>m. (m, action_name a)) (methods a)"

definition is_lookup :: "string \<Rightarrow> bool" where
  "is_lookup seg \<longleftrightarrow> seg \<noteq> [] \<and> CHR ''/'' \<notin> set seg \<and> CHR ''.'' \<notin> set seg"

definition resolve :: "action_decl list \<Rightarrow> http_method \<Rightarrow> string list \<Rightarrow> resolution" where
  "resolve extra m path =
     (case path of
        [] \<Rightarrow> by_method list_route m
      | [seg] \<Rightarrow>
          (case find (\<lambda>a. \<not> detail a \<and> action_name a = seg) extra of
             Some a \<Rightarrow> by_method (action_mapping a) m
           | None \<Rightarrow> if is_lookup seg then by_method detail_route m else NoRoute)
      | [key, seg] \<Rightarrow>
          (if is_lookup key
           then (case find (\<lambda>a. detail a \<and> action_name a = seg) extra of
                   Some a \<Rightarrow> by_method (action_mapping a) m
                 | None \<Rightarrow> NoRoute)
           else NoRoute)
      | _ \<Rightarrow> NoRoute)"

text \<open>Every action the view class exposes.\<close>

definition exposed_actions :: "string list" where
  "exposed_actions = map snd list_route @ map snd detail_route @ map action_name extra_actions"

section \<open>Example data\<close>

text \<open>A small database and two requests, on which the theorems below are run.\<close>

definition staff_request :: request where
  "staff_request = \<lparr>user = \<lparr>user_id = 1, is_staff = True\<rparr>, page = 1,
                     query_rejected = None, query_selects = (\<lambda>a. True)\<rparr>"

definition reader_request :: request where
  "reader_request = \<lparr>user = \<lparr>user_id = 2, is_staff = False\<rparr>, page = 1,
                      query_rejected = None, query_selects = (\<lambda>a. True)\<rparr>"

text \<open>The staff user's request with \<open>?status=archived\<close>.\<close>

definition archived_filter_request :: request where
  "archived_filter_request =
     staff_request\<lparr>query_selects :=
                     (\<lambda>a. attrs a (str ''status'') = PStr (str ''archived''))\<rparr>"

definition draft_article :: obj where
  "draft_article =
     \<lparr>pk = 7, attrs = (\<lambda>k. PNone)(str ''status'' := PStr (str ''draft''),
                                   str ''author'' := PInt 2)\<rparr>"

definition published_article :: obj where
  "published_article =
     \<lparr>pk = 8, attrs = (\<lambda>k. PNone)(str ''status'' := PStr (str ''published''),
                                   str ''author'' := PInt 2)\<rparr>"

definition example_db :: db where
  "example_db = \<lparr>article_rows = [draft_article, published_article],
                  tag_rows = [], article_tags = []\<rparr>"

definition ser_pk :: "db \<Rightarrow> obj \<Rightarrow> pyval" where
  "ser_pk d a = PDict [(str ''id'', PInt (pk a)), (str ''status'', attrs a (str ''status''))]"

definition example_data :: pydict where
  "example_data = [(str ''title'', PStr (str ''Hello world'')),
                   (str ''status'', PStr (str ''draft''))]"

definition no_defaults :: "pystr \<Rightarrow> pyval" where
  "no_defaults k = PNone"

definition python_tag :: obj where
  "python_tag = \<lparr>pk = 1, attrs = (\<lambda>k. PNone)(str ''name'' := PStr (str ''python''))\<rparr>"

definition tagged_db :: db where
  "tagged_db = \<lparr>article_rows = [draft_article, published_article],
                 tag_rows = [python_tag], article_tags = [(7, 1)]\<rparr>"

definition nested_tags :: "pyval list" where
  "nested_tags = [PDict [(str ''name'', PStr (str ''python''))],
                  PDict [(str ''name'', PStr (str ''django''))]]"

definition nested_data :: pydict where
  "nested_data = [(str ''title'', PStr (str ''Hello world'')),
                  (str ''tags'', PList nested_tags)]"

definition flat_data :: pydict where
  "flat_data = [(str ''title'', PStr (str ''Hello world''))]"

definition duplicate_tag_db :: db where
  "duplicate_tag_db = \<lparr>article_rows = [], tag_rows = [python_tag, python_tag\<lparr>pk := 2\<rparr>],
                        article_tags = []\<rparr>"


section \<open>Facts about strings and dicts\<close>

lemma str_eq_iff [simp]: "str a = str b \<longleftrightarrow> a = b"
proof -
  have "inj (of_char :: char \<Rightarrow> nat)"
    by (rule injI) simp
  then show ?thesis
    unfolding str_def by simp
qed

lemma length_str [simp]: "length (str cs) = length cs"
  by (simp add: str_def)

lemma str_Nil [simp]: "str [] = []"
  by (simp add: str_def)

lemma str_eq_Nil_iff [simp]: "str cs = [] \<longleftrightarrow> cs = []"
  by (simp add: str_def)

section \<open>Validation: the claim\<close>

lemma no_summary_cases:
  "map_of ad (str ''summary'') = None \<Longrightarrow> \<not> truthy (dict_get ad (str ''summary''))"
  "map_of ad (str ''summary'') = Some PNone \<Longrightarrow> \<not> truthy (dict_get ad (str ''summary''))"
  "map_of ad (str ''summary'') = Some (PStr []) \<Longrightarrow> \<not> truthy (dict_get ad (str ''summary''))"
  "map_of ad (str ''summary'') = Some (PStr (c # cs)) \<Longrightarrow> truthy (dict_get ad (str ''summary''))"
  by (simp_all add: dict_get_def)

text \<open>
  C3. \<open>validate_title\<close> raises a \<open>ValidationError\<close> exactly for the titles of fewer than 5
  characters and returns every other title unchanged. \<open>validate\<close> raises a
  \<open>ValidationError\<close> keyed by \<open>"summary"\<close> exactly for the inputs whose status is
  \<open>"published"\<close> and that have no summary (the key is missing, or its value is \<open>None\<close>,
  empty, or otherwise false in Python), and returns every other input unchanged.
\<close>

theorem validation_raises_iff_rule_violated:
  "(length title < 5 \<longrightarrow>
      validate_title title = Inl (ValidationError (PStr msg_title_too_short)))
   \<and> (\<not> length title < 5 \<longrightarrow> validate_title title = Inr title)
   \<and> (dict_get ad (str ''status'') = PStr (str ''published'')
        \<and> \<not> truthy (dict_get ad (str ''summary''))
      \<longrightarrow> validate ad =
            Inl (ValidationError (PDict [(str ''summary'', PStr msg_summary_required)])))
   \<and> (\<not> (dict_get ad (str ''status'') = PStr (str ''published'')
           \<and> \<not> truthy (dict_get ad (str ''summary'')))
      \<longrightarrow> validate ad = Inr ad)"
  by (simp add: validate_title_def validate_def)

theorem validation_raises_iff_rule_violated_witness:
  "validate_title (str ''Hi'') = Inl (ValidationError (PStr msg_title_too_short))
   \<and> validate_title (str ''Hello'') = Inr (str ''Hello'')
   \<and> validate [(str ''status'', PStr (str ''published'')), (str ''summary'', PStr [])]
       = Inl (ValidationError (PDict [(str ''summary'', PStr msg_summary_required)]))
   \<and> validate [(str ''status'', PStr (str ''draft''))]
       = Inr [(str ''status'', PStr (str ''draft''))]"
proof -
  have a: "length (str ''Hi'') < 5" and b: "\<not> length (str ''Hello'') < 5"
    by simp_all
  have c: "dict_get [(str ''status'', PStr (str ''published'')), (str ''summary'', PStr [])]
             (str ''status'') = PStr (str ''published'')
           \<and> \<not> truthy (dict_get
                 [(str ''status'', PStr (str ''published'')), (str ''summary'', PStr [])]
                 (str ''summary''))"
    by (simp add: dict_get_def)
  have d: "\<not> (dict_get [(str ''status'', PStr (str ''draft''))] (str ''status'')
               = PStr (str ''published'')
             \<and> \<not> truthy (dict_get [(str ''status'', PStr (str ''draft''))] (str ''summary'')))"
    by (simp add: dict_get_def)
  from a validation_raises_iff_rule_violated [of "str ''Hi''" "[]"]
  have 1: "validate_title (str ''Hi'') = Inl (ValidationError (PStr msg_title_too_short))"
    by blast
  from b validation_raises_iff_rule_violated [of "str ''Hello''" "[]"]
  have 2: "validate_title (str ''Hello'') = Inr (str ''Hello'')"
    by blast
  from c validation_raises_iff_rule_violated
    [of "[]" "[(str ''status'', PStr (str ''published'')), (str ''summary'', PStr [])]"]
  have 3: "validate [(str ''status'', PStr (str ''published'')), (str ''summary'', PStr [])]
       = Inl (ValidationError (PDict [(str ''summary'', PStr msg_summary_required)]))"
    by blast
  from d validation_raises_iff_rule_violated
    [of "[]" "[(str ''status'', PStr (str ''draft''))]"]
  have 4: "validate [(str ''status'', PStr (str ''draft''))]
       = Inr [(str ''status'', PStr (str ''draft''))]"
    by blast
  from 1 2 3 4 show ?thesis by blast
qed

section \<open>The view class: publish\<close>

lemma get_object_Inr:
  "get_object req d key = Inr a \<Longrightarrow> a \<in> set (get_queryset req d) \<and> pk a = key"
proof -
  assume h: "get_object req d key = Inr a"
  then have "filter (\<lambda>a. pk a = key) (filter (query_selects req) (get_queryset req d)) = [a]"
    by (auto simp: get_object_def filter_queryset_def split: list.splits option.splits)
  then have "a \<in> set (filter (\<lambda>a. pk a = key)
                       (filter (query_selects req) (get_queryset req d)))"
    by simp
  then show ?thesis by simp
qed

lemma get_queryset_subset: "set (get_queryset req d) \<subseteq> set (article_rows d)"
  by (auto simp: get_queryset_def ModelViewSet_get_queryset_def Let_def)

lemma save_update_fields_status:
  "r \<in> set (save_update_fields rows (setattr a k v) [k]) \<Longrightarrow> pk r = pk a \<Longrightarrow> attrs r k = v"
  by (auto simp: save_update_fields_def setattr_def)

lemma save_update_fields_pks:
  "map pk (save_update_fields rows a fs) = map pk rows"
  by (simp add: save_update_fields_def)

lemma publish_on_found_article:
  assumes "get_object req d key = Inr article"
  shows "(attrs article (str ''status'') = PStr (str ''published'') \<longrightarrow>
            publish ser req d key =
              (d, Inr \<lparr>status_code = 400,
                       data = Data (PDict [(str ''detail'', PStr msg_already_published)])\<rparr>))
       \<and> (attrs article (str ''status'') \<noteq> PStr (str ''published'') \<longrightarrow>
            (\<exists>d'. publish ser req d key =
                    (d', Inr \<lparr>status_code = 200,
                              data = Data (ser d' (setattr article (str ''status'')
                                                      (PStr (str ''published''))))\<rparr>)
                 \<and> (\<exists>r \<in> set (article_rows d'). pk r = key)
                 \<and> (\<forall>r \<in> set (article_rows d').
                       pk r = key \<longrightarrow> attrs r (str ''status'') = PStr (str ''published''))))"
proof (intro conjI impI)
  assume "attrs article (str ''status'') = PStr (str ''published'')"
  with assms show "publish ser req d key =
              (d, Inr \<lparr>status_code = 400,
                       data = Data (PDict [(str ''detail'', PStr msg_already_published)])\<rparr>)"
    by (simp add: publish_def HTTP_400_BAD_REQUEST_def)
next
  assume ns: "attrs article (str ''status'') \<noteq> PStr (str ''published'')"
  let ?a' = "setattr article (str ''status'') (PStr (str ''published''))"
  let ?d' = "d\<lparr>article_rows := save_update_fields (article_rows d) ?a' [str ''status'']\<rparr>"
  from assms have mem: "article \<in> set (article_rows d)" and key: "pk article = key"
    using get_object_Inr get_queryset_subset by blast+
  have pka: "pk ?a' = pk article" by (simp add: setattr_def)
  have 1: "publish ser req d key =
      (?d', Inr \<lparr>status_code = 200, data = Data (ser ?d' ?a')\<rparr>)"
    using assms ns by (simp add: publish_def HTTP_200_OK_def Let_def)
  have "key \<in> set (map pk (article_rows ?d'))"
    using mem key by (simp add: save_update_fields_pks del: set_map) force
  then have 2: "\<exists>r \<in> set (article_rows ?d'). pk r = key" by auto
  have 3: "\<forall>r \<in> set (article_rows ?d').
             pk r = key \<longrightarrow> attrs r (str ''status'') = PStr (str ''published'')"
    using save_update_fields_status [of _ "article_rows d" article] key by simp
  from 1 2 3 show "\<exists>d'. publish ser req d key =
                    (d', Inr \<lparr>status_code = 200,
                              data = Data (ser d' (setattr article (str ''status'')
                                                      (PStr (str ''published''))))\<rparr>)
                 \<and> (\<exists>r \<in> set (article_rows d'). pk r = key)
                 \<and> (\<forall>r \<in> set (article_rows d').
                       pk r = key \<longrightarrow> attrs r (str ''status'') = PStr (str ''published''))"
    by blast
qed

lemma publish_raises_with_get_object:
  "get_object req d key = Inl e \<Longrightarrow> publish ser req d key = (d, Inl e)"
  by (simp add: publish_def)

lemma reader_finds_published_only:
  assumes "\<not> is_staff (user req)" and "get_object req d key = Inr article"
  shows "attrs article (str ''status'') = PStr (str ''published'')"
proof -
  from assms(2) have "article \<in> set (get_queryset req d)"
    using get_object_Inr by blast
  with assms(1) show ?thesis
    by (simp add: get_queryset_def ModelViewSet_get_queryset_def)
qed

lemma reader_gets_404_for_unpublished:
  assumes "\<not> is_staff (user req)" and "query_rejected req = None"
    and "\<forall>a \<in> set (article_rows d).
           pk a = key \<longrightarrow> attrs a (str ''status'') \<noteq> PStr (str ''published'')"
  shows "get_object req d key = Inl Http404"
proof -
  from assms(3) have "filter (\<lambda>a. pk a = key)
          (filter (query_selects req)
             (filter (\<lambda>a. attrs a (str ''status'') = PStr (str ''published''))
                (article_rows d))) = []"
    by (auto simp: filter_empty_conv)
  with assms(1,2) show ?thesis
    by (simp add: get_object_def filter_queryset_def get_queryset_def
        ModelViewSet_get_queryset_def)
qed

text \<open>
  C1, as stated, fails: the reader's own draft is an article whose status is not
  \<open>"published"\<close>, and \<open>publish\<close> on it raises \<open>Http404\<close> and leaves it a draft, because
  \<open>get_queryset\<close> hides it from a user who is not staff. A staff user's request whose
  query string selects other rows ends the same way.
\<close>

theorem publish_hidden_draft_raises_404:
  "draft_article \<in> set (article_rows example_db)
   \<and> pk draft_article = 7
   \<and> attrs draft_article (str ''status'') \<noteq> PStr (str ''published'')
   \<and> publish ser_pk reader_request example_db 7 = (example_db, Inl Http404)
   \<and> publish ser_pk archived_filter_request example_db 7 = (example_db, Inl Http404)"
  by (simp add: publish_def get_object_def filter_queryset_def get_queryset_def
      ModelViewSet_get_queryset_def reader_request_def archived_filter_request_def
      staff_request_def example_db_def draft_article_def published_article_def)

text \<open>
  C1, amended. For the article that \<open>get_object\<close> finds for the request: when its status
  is already \<open>"published"\<close>, \<open>publish\<close> answers HTTP 400 with the body \<open>{"detail": ...}\<close>
  and leaves the database alone; when it is not, \<open>publish\<close> does not answer 400: it
  answers 200 with the serialized article, whose status is now \<open>"published"\<close>, and the
  article's row in the database has status \<open>"published"\<close>. When \<open>get_object\<close> raises,
  \<open>publish\<close> raises the same and leaves the database alone. For a user who is not staff
  the article found is always a published one, and a key under which no article is
  published gives \<open>Http404\<close>.
\<close>

theorem publish_found_400_or_sets_status_else_raises:
  "(get_object req d key = Inr article \<longrightarrow>
      (attrs article (str ''status'') = PStr (str ''published'') \<longrightarrow>
         publish ser req d key =
           (d, Inr \<lparr>status_code = 400,
                    data = Data (PDict [(str ''detail'', PStr msg_already_published)])\<rparr>))
    \<and> (attrs article (str ''status'') \<noteq> PStr (str ''published'') \<longrightarrow>
         (\<exists>d'. publish ser req d key =
                 (d', Inr \<lparr>status_code = 200,
                           data = Data (ser d' (setattr article (str ''status'')
                                                   (PStr (str ''published''))))\<rparr>)
              \<and> (\<exists>r \<in> set (article_rows d'). pk r = key)
              \<and> (\<forall>r \<in> set (article_rows d').
                    pk r = key \<longrightarrow> attrs r (str ''status'') = PStr (str ''published'')))))
   \<and> (get_object req d key = Inl e \<longrightarrow> publish ser req d key = (d, Inl e))
   \<and> (\<not> is_staff (user req) \<and> get_object req d key = Inr article \<longrightarrow>
        attrs article (str ''status'') = PStr (str ''published''))
   \<and> (\<not> is_staff (user req) \<and> query_rejected req = None
        \<and> (\<forall>a \<in> set (article_rows d).
              pk a = key \<longrightarrow> attrs a (str ''status'') \<noteq> PStr (str ''published''))
      \<longrightarrow> publish ser req d key = (d, Inl Http404))"
proof (intro conjI impI)
  assume found: "get_object req d key = Inr article"
  {
    assume "attrs article (str ''status'') = PStr (str ''published'')"
    with publish_on_found_article [OF found, of ser]
    show "publish ser req d key =
           (d, Inr \<lparr>status_code = 400,
                    data = Data (PDict [(str ''detail'', PStr msg_already_published)])\<rparr>)"
      by blast
  }
  {
    assume "attrs article (str ''status'') \<noteq> PStr (str ''published'')"
    with publish_on_found_article [OF found, of ser]
    show "\<exists>d'. publish ser req d key =
                 (d', Inr \<lparr>status_code = 200,
                           data = Data (ser d' (setattr article (str ''status'')
                                                   (PStr (str ''published''))))\<rparr>)
              \<and> (\<exists>r \<in> set (article_rows d'). pk r = key)
              \<and> (\<forall>r \<in> set (article_rows d').
                    pk r = key \<longrightarrow> attrs r (str ''status'') = PStr (str ''published''))"
      by blast
  }
next
  assume "get_object req d key = Inl e"
  then show "publish ser req d key = (d, Inl e)"
    by (rule publish_raises_with_get_object)
next
  assume "\<not> is_staff (user req) \<and> get_object req d key = Inr article"
  then show "attrs article (str ''status'') = PStr (str ''published'')"
    using reader_finds_published_only by blast
next
  assume h: "\<not> is_staff (user req) \<and> query_rejected req = None
        \<and> (\<forall>a \<in> set (article_rows d).
              pk a = key \<longrightarrow> attrs a (str ''status'') \<noteq> PStr (str ''published''))"
  then have "get_object req d key = Inl Http404"
    using reader_gets_404_for_unpublished by blast
  then show "publish ser req d key = (d, Inl Http404)"
    by (rule publish_raises_with_get_object)
qed

lemma get_object_draft_as_staff: "get_object staff_request example_db 7 = Inr draft_article"
  by (simp add: get_object_def filter_queryset_def get_queryset_def
      ModelViewSet_get_queryset_def staff_request_def
      example_db_def draft_article_def published_article_def)

lemma get_object_published_as_reader:
  "get_object reader_request example_db 8 = Inr published_article"
  by (simp add: get_object_def filter_queryset_def get_queryset_def
      ModelViewSet_get_queryset_def reader_request_def
      example_db_def draft_article_def published_article_def)

lemma get_object_draft_filtered_out:
  "get_object archived_filter_request example_db 7 = Inl Http404"
  by (simp add: get_object_def filter_queryset_def get_queryset_def
      ModelViewSet_get_queryset_def archived_filter_request_def staff_request_def
      example_db_def draft_article_def published_article_def)

theorem publish_found_400_or_sets_status_else_raises_witness:
  "get_object staff_request example_db 7 = Inr draft_article
   \<and> attrs draft_article (str ''status'') \<noteq> PStr (str ''published'')
   \<and> (\<exists>d'. publish ser_pk staff_request example_db 7 =
              (d', Inr \<lparr>status_code = 200,
                  data = Data (ser_pk d' (setattr draft_article (str ''status'')
                                                      (PStr (str ''published''))))\<rparr>)
         \<and> (\<exists>r \<in> set (article_rows d').
               pk r = 7 \<and> attrs r (str ''status'') = PStr (str ''published'')))
   \<and> get_object reader_request example_db 8 = Inr published_article
   \<and> attrs published_article (str ''status'') = PStr (str ''published'')
   \<and> publish ser_pk reader_request example_db 8 =
        (example_db, Inr \<lparr>status_code = 400,
                       data = Data (PDict [(str ''detail'', PStr msg_already_published)])\<rparr>)
   \<and> get_object archived_filter_request example_db 7 = Inl Http404
   \<and> publish ser_pk archived_filter_request example_db 7 = (example_db, Inl Http404)
   \<and> \<not> is_staff (user reader_request)
   \<and> query_rejected reader_request = None
   \<and> publish ser_pk reader_request example_db 7 = (example_db, Inl Http404)"
proof -
  have a: "attrs draft_article (str ''status'') \<noteq> PStr (str ''published'')"
    by (simp add: draft_article_def)
  have b: "attrs published_article (str ''status'') = PStr (str ''published'')"
    by (simp add: published_article_def)
  have ns: "\<not> is_staff (user reader_request)" and nr: "query_rejected reader_request = None"
    by (simp_all add: reader_request_def)
  have hidden: "\<forall>x \<in> set (article_rows example_db).
                  pk x = 7 \<longrightarrow> attrs x (str ''status'') \<noteq> PStr (str ''published'')"
    by (simp add: example_db_def draft_article_def published_article_def)
  from publish_found_400_or_sets_status_else_raises
         [of staff_request example_db 7 draft_article ser_pk]
       get_object_draft_as_staff a
  have 1: "\<exists>d'. publish ser_pk staff_request example_db 7 =
              (d', Inr \<lparr>status_code = 200,
                  data = Data (ser_pk d' (setattr draft_article (str ''status'')
                                                      (PStr (str ''published''))))\<rparr>)
         \<and> (\<exists>r \<in> set (article_rows d').
               pk r = 7 \<and> attrs r (str ''status'') = PStr (str ''published''))"
    by blast
  from publish_found_400_or_sets_status_else_raises
         [of reader_request example_db 8 published_article ser_pk]
       get_object_published_as_reader b
  have 2: "publish ser_pk reader_request example_db 8 =
        (example_db, Inr \<lparr>status_code = 400,
                       data = Data (PDict [(str ''detail'', PStr msg_already_published)])\<rparr>)"
    by blast
  from publish_found_400_or_sets_status_else_raises
         [of archived_filter_request example_db 7 _ ser_pk Http404]
       get_object_draft_filtered_out
  have 3: "publish ser_pk archived_filter_request example_db 7 = (example_db, Inl Http404)"
    by blast
  from publish_found_400_or_sets_status_else_raises
         [of reader_request example_db 7 _ ser_pk]
       ns nr hidden
  have 4: "publish ser_pk reader_request example_db 7 = (example_db, Inl Http404)"
    by blast
  from get_object_draft_as_staff get_object_published_as_reader
       get_object_draft_filtered_out a b ns nr 1 2 3 4
  show ?thesis by (intro conjI)
qed

lemma save_update_fields_frame:
  "list_all2 (\<lambda>r r'. pk r' = pk r \<and> (\<forall>k. k \<notin> set fs \<longrightarrow> attrs r' k = attrs r k)
                      \<and> (pk r \<noteq> pk a \<longrightarrow> r' = r))
     rows (save_update_fields rows a fs)"
  by (induction rows) (simp_all add: save_update_fields_def)

lemma list_all2_same: "(\<And>x. x \<in> set xs \<Longrightarrow> P x x) \<Longrightarrow> list_all2 P xs xs"
  by (induction xs) simp_all

text \<open>
  C8. \<open>publish\<close> touches the status column only: the tags and the article-tag relation
  are unchanged, every row keeps its primary key and every attribute other than
  \<open>status\<close>, rows under another key are unchanged altogether, and when the action raises
  or answers 400 the database is unchanged.
\<close>

theorem publish_touches_only_status:
  assumes "publish ser req d key = (d', res)"
  shows "tag_rows d' = tag_rows d \<and> article_tags d' = article_tags d
     \<and> list_all2 (\<lambda>r r'. pk r' = pk r
                     \<and> (\<forall>k. k \<noteq> str ''status'' \<longrightarrow> attrs r' k = attrs r k)
                     \<and> (pk r \<noteq> key \<longrightarrow> r' = r))
         (article_rows d) (article_rows d')
     \<and> (\<forall>e. res = Inl e \<longrightarrow> d' = d)
     \<and> (\<forall>resp. res = Inr resp \<longrightarrow> status_code resp = 400 \<longrightarrow> d' = d)"
proof (cases "get_object req d key")
  case (Inl e)
  with assms have "d' = d" by (simp add: publish_def)
  then show ?thesis by (simp add: list_all2_same)
next
  case (Inr article)
  then have key: "pk article = key" using get_object_Inr by blast
  show ?thesis
  proof (cases "attrs article (str ''status'') = PStr (str ''published'')")
    case True
    with Inr assms have "d' = d" by (simp add: publish_def)
    then show ?thesis by (simp add: list_all2_same)
  next
    case False
    let ?a' = "setattr article (str ''status'') (PStr (str ''published''))"
    from False Inr assms
    have d': "d' = d\<lparr>article_rows := save_update_fields (article_rows d) ?a' [str ''status'']\<rparr>"
      and res: "res = Inr \<lparr>status_code = HTTP_200_OK, data = Data (ser d' ?a')\<rparr>"
      by (auto simp: publish_def Let_def)
    have "pk ?a' = key" using key by (simp add: setattr_def)
    with save_update_fields_frame [of "[str ''status'']" ?a' "article_rows d"]
    have "list_all2 (\<lambda>r r'. pk r' = pk r
                     \<and> (\<forall>k. k \<noteq> str ''status'' \<longrightarrow> attrs r' k = attrs r k)
                     \<and> (pk r \<noteq> key \<longrightarrow> r' = r))
         (article_rows d) (article_rows d')"
      by (simp add: d')
    then show ?thesis using res by (simp add: d' HTTP_200_OK_def)
  qed
qed

theorem publish_touches_only_status_witness:
  "tag_rows (fst (publish ser_pk staff_request example_db 7)) = tag_rows example_db
   \<and> article_tags (fst (publish ser_pk staff_request example_db 7)) = article_tags example_db
   \<and> list_all2 (\<lambda>r r'. pk r' = pk r
                     \<and> (\<forall>k. k \<noteq> str ''status'' \<longrightarrow> attrs r' k = attrs r k)
                     \<and> (pk r \<noteq> 7 \<longrightarrow> r' = r))
         (article_rows example_db)
         (article_rows (fst (publish ser_pk staff_request example_db 7)))
   \<and> snd (publish ser_pk reader_request example_db 8) =
        Inr \<lparr>status_code = 400,
             data = Data (PDict [(str ''detail'', PStr msg_already_published)])\<rparr>
   \<and> fst (publish ser_pk reader_request example_db 8) = example_db
   \<and> snd (publish ser_pk reader_request example_db 7) = Inl Http404
   \<and> fst (publish ser_pk reader_request example_db 7) = example_db"
proof -
  have e7: "publish ser_pk staff_request example_db 7 =
             (fst (publish ser_pk staff_request example_db 7),
              snd (publish ser_pk staff_request example_db 7))"
    by simp
  have e8: "publish ser_pk reader_request example_db 8 =
             (fst (publish ser_pk reader_request example_db 8),
              snd (publish ser_pk reader_request example_db 8))"
    by simp
  have e9: "publish ser_pk reader_request example_db 7 =
             (fst (publish ser_pk reader_request example_db 7),
              snd (publish ser_pk reader_request example_db 7))"
    by simp
  have s8: "snd (publish ser_pk reader_request example_db 8) =
        Inr \<lparr>status_code = 400,
             data = Data (PDict [(str ''detail'', PStr msg_already_published)])\<rparr>"
    by (simp add: publish_def get_object_def filter_queryset_def get_queryset_def
        ModelViewSet_get_queryset_def
        reader_request_def example_db_def draft_article_def published_article_def
        HTTP_400_BAD_REQUEST_def)
  have s9: "snd (publish ser_pk reader_request example_db 7) = Inl Http404"
    by (simp add: publish_def get_object_def filter_queryset_def get_queryset_def
        ModelViewSet_get_queryset_def
        reader_request_def example_db_def draft_article_def published_article_def)
  from publish_touches_only_status [OF e8] s8
  have f8: "fst (publish ser_pk reader_request example_db 8) = example_db"
    by simp
  from publish_touches_only_status [OF e9] s9
  have f9: "fst (publish ser_pk reader_request example_db 7) = example_db"
    by simp
  from publish_touches_only_status [OF e7] s8 f8 s9 f9 show ?thesis by blast
qed

section \<open>The view class: what a user sees\<close>

lemma paginate_queryset_subset:
  "paginate_queryset ps req qs = Inr (Some pg) \<Longrightarrow> set pg \<subseteq> set qs"
  by (auto simp: paginate_queryset_def split: option.splits if_splits
      dest: in_set_takeD in_set_dropD)

lemma get_queryset_non_staff:
  "\<not> is_staff (user req) \<Longrightarrow>
     get_queryset req d =
       filter (\<lambda>a. attrs a (str ''status'') = PStr (str ''published'')) (article_rows d)"
  by (simp add: get_queryset_def ModelViewSet_get_queryset_def)

text \<open>
  C9. For a request of a user who is not staff, every article of \<open>get_queryset\<close> has status
  \<open>"published"\<close>; the articles a response of \<open>my_articles\<close> serializes are rows of the
  database with status \<open>"published"\<close> whose author is the user (so no draft and no
  archived article), and without pagination they are all of these.
\<close>

theorem non_staff_sees_only_published:
  assumes "\<not> is_staff (user req)"
  shows "(\<forall>a \<in> set (get_queryset req d). attrs a (str ''status'') = PStr (str ''published''))
     \<and> (\<forall>resp. my_articles ser ps req d = Inr resp \<longrightarrow>
          (\<exists>arts. (data resp = Data (PList (map (ser d) arts))
                    \<or> (\<exists>n. data resp = Paginated n (map (ser d) arts)))
                 \<and> (\<forall>a \<in> set arts. a \<in> set (article_rows d)
                       \<and> attrs a (str ''status'') = PStr (str ''published'')
                       \<and> attrs a (str ''author'') = PInt (user_id (user req)))))
     \<and> (ps = None \<longrightarrow>
          my_articles ser ps req d =
            Inr \<lparr>status_code = 200,
                 data = Data (PList (map (ser d)
                   (filter (\<lambda>a. attrs a (str ''author'') = PInt (user_id (user req)))
                     (filter (\<lambda>a. attrs a (str ''status'') = PStr (str ''published''))
                        (article_rows d)))))\<rparr>)"
proof (intro conjI allI impI)
  show "\<forall>a \<in> set (get_queryset req d). attrs a (str ''status'') = PStr (str ''published'')"
    using assms by (simp add: get_queryset_non_staff)
next
  fix resp
  assume r: "my_articles ser ps req d = Inr resp"
  let ?articles = "filter (\<lambda>a. attrs a (str ''author'') = PInt (user_id (user req)))
                       (get_queryset req d)"
  have good: "\<forall>a \<in> set ?articles. a \<in> set (article_rows d)
                       \<and> attrs a (str ''status'') = PStr (str ''published'')
                       \<and> attrs a (str ''author'') = PInt (user_id (user req))"
    using assms by (simp add: get_queryset_non_staff)
  show "\<exists>arts. (data resp = Data (PList (map (ser d) arts))
                    \<or> (\<exists>n. data resp = Paginated n (map (ser d) arts)))
                 \<and> (\<forall>a \<in> set arts. a \<in> set (article_rows d)
                       \<and> attrs a (str ''status'') = PStr (str ''published'')
                       \<and> attrs a (str ''author'') = PInt (user_id (user req)))"
  proof (cases "paginate_queryset ps req ?articles")
    case (Inl e)
    with r show ?thesis by (simp add: my_articles_def Let_def)
  next
    case (Inr pgo)
    show ?thesis
    proof (cases pgo)
      case None
      with Inr r have "data resp = Data (PList (map (ser d) ?articles))"
        by (auto simp: my_articles_def Let_def)
      with good show ?thesis by blast
    next
      case (Some pg)
      with Inr r have "data resp = Paginated (length ?articles) (map (ser d) pg)"
        by (auto simp: my_articles_def Let_def)
      moreover from Inr Some have "set pg \<subseteq> set ?articles"
        using paginate_queryset_subset by blast
      ultimately show ?thesis using good by blast
    qed
  qed
next
  assume "ps = None"
  then show "my_articles ser ps req d =
            Inr \<lparr>status_code = 200,
                 data = Data (PList (map (ser d)
                   (filter (\<lambda>a. attrs a (str ''author'') = PInt (user_id (user req)))
                     (filter (\<lambda>a. attrs a (str ''status'') = PStr (str ''published''))
                        (article_rows d)))))\<rparr>"
    using assms
    by (simp add: my_articles_def paginate_queryset_def get_queryset_non_staff HTTP_200_OK_def)
qed

theorem non_staff_sees_only_published_witness:
  "\<not> is_staff (user reader_request)
   \<and> draft_article \<in> set (article_rows example_db)
   \<and> attrs draft_article (str ''author'') = PInt (user_id (user reader_request))
   \<and> draft_article \<notin> set (get_queryset reader_request example_db)
   \<and> my_articles ser_pk None reader_request example_db =
       Inr \<lparr>status_code = 200, data = Data (PList [ser_pk example_db published_article])\<rparr>"
proof -
  have ns: "\<not> is_staff (user reader_request)"
    by (simp add: reader_request_def)
  have dr: "attrs draft_article (str ''status'') \<noteq> PStr (str ''published'')"
    by (simp add: draft_article_def)
  have pu: "attrs published_article (str ''status'') = PStr (str ''published'')"
    by (simp add: published_article_def)
  have au: "attrs draft_article (str ''author'') = PInt (user_id (user reader_request))"
    "attrs published_article (str ''author'') = PInt (user_id (user reader_request))"
    by (simp_all add: draft_article_def published_article_def reader_request_def)
  have rows: "article_rows example_db = [draft_article, published_article]"
    by (simp add: example_db_def)
  note inst = non_staff_sees_only_published [OF ns, of example_db ser_pk None]
  from inst dr have 1: "draft_article \<notin> set (get_queryset reader_request example_db)"
    by blast
  from inst have "my_articles ser_pk None reader_request example_db =
            Inr \<lparr>status_code = 200,
                 data = Data (PList (map (ser_pk example_db)
                   (filter (\<lambda>a. attrs a (str ''author'') = PInt (user_id (user reader_request)))
                     (filter (\<lambda>a. attrs a (str ''status'') = PStr (str ''published''))
                        (article_rows example_db)))))\<rparr>"
    by blast
  then have 2: "my_articles ser_pk None reader_request example_db =
       Inr \<lparr>status_code = 200, data = Data (PList [ser_pk example_db published_article])\<rparr>"
    using dr pu au by (simp add: rows)
  from ns 1 2 au rows show ?thesis by simp
qed

section \<open>The view class against its base class\<close>

lemma dict_merge_Nil [simp]: "dict_merge a [] = a"
  by (simp add: dict_merge_def)

lemma map_of_dict_merge_single:
  "map_of (dict_merge a [(k, v)]) k = Some v"
proof (cases "map_of a k")
  case None
  then have "map_of (map (\<lambda>kv. (fst kv, case map_of [(k, v)] (fst kv) of None \<Rightarrow> snd kv | Some w \<Rightarrow> w)) a) k = None"
    by (induction a) (auto split: if_splits)
  with None show ?thesis by (simp add: dict_merge_def map_add_def)
next
  case (Some w)
  then have "map_of (map (\<lambda>kv. (fst kv, case map_of [(k, v)] (fst kv) of None \<Rightarrow> snd kv | Some w \<Rightarrow> w)) a) k = Some v"
    by (induction a) (auto split: if_splits)
  then show ?thesis by (simp add: dict_merge_def map_add_def)
qed

lemma map_of_dict_merge_other:
  "k' \<noteq> k \<Longrightarrow> map_of (dict_merge a [(k, v)]) k' = map_of a k'"
proof -
  assume ne: "k' \<noteq> k"
  have "map_of (map (\<lambda>kv. (fst kv, case map_of [(k, v)] (fst kv) of None \<Rightarrow> snd kv | Some w \<Rightarrow> w)) a) k' = map_of a k'"
    using ne by (induction a) (auto split: if_splits)
  moreover have "map_of (filter (\<lambda>kv. map_of a (fst kv) = None) [(k, v)]) k' = None"
    using ne by simp
  ultimately show ?thesis
    using ne by (auto simp: dict_merge_def map_add_def split: option.splits)
qed

text \<open>
  C2, as stated, fails: for a user who is not staff \<open>get_queryset\<close> differs from the base
  class's queryset, and \<open>perform_create\<close> creates a record that differs from the one the
  base class's \<open>perform_create\<close> creates.
\<close>

theorem view_customises_queryset_and_create:
  "get_queryset reader_request example_db \<noteq> ModelViewSet_get_queryset example_db
   \<and> perform_create (create no_defaults no_defaults) reader_request example_data example_db
       \<noteq> ModelViewSet_perform_create (create no_defaults no_defaults) example_data example_db"
proof
  show "get_queryset reader_request example_db \<noteq> ModelViewSet_get_queryset example_db"
    by (simp add: get_queryset_def ModelViewSet_get_queryset_def reader_request_def
        example_db_def draft_article_def published_article_def)
next
  let ?author = "\<lambda>x :: db \<times> (error + obj).
                   (case snd x of Inl e \<Rightarrow> PNone | Inr a \<Rightarrow> attrs a (str ''author''))"
  have 1: "?author (perform_create (create no_defaults no_defaults) reader_request
              example_data example_db) = PInt 2"
    by (simp add: perform_create_def serializer_save_def create_def dict_merge_def dict_pop_def
        example_data_def objects_create_def reader_request_def Let_def)
  have 2: "?author (ModelViewSet_perform_create (create no_defaults no_defaults)
              example_data example_db) = PNone"
    by (simp add: ModelViewSet_perform_create_def serializer_save_def create_def dict_merge_def
        dict_pop_def example_data_def objects_create_def no_defaults_def Let_def)
  show "perform_create (create no_defaults no_defaults) reader_request example_data example_db
       \<noteq> ModelViewSet_perform_create (create no_defaults no_defaults) example_data example_db"
  proof
    assume "perform_create (create no_defaults no_defaults) reader_request example_data example_db
       = ModelViewSet_perform_create (create no_defaults no_defaults) example_data example_db"
    then have "?author (perform_create (create no_defaults no_defaults) reader_request
              example_data example_db) = ?author (ModelViewSet_perform_create (create no_defaults no_defaults)
              example_data example_db)"
      by simp
    with 1 2 show False by simp
  qed
qed

text \<open>
  C2, amended. The view class customises two base-class methods. \<open>get_queryset\<close> equals
  the base class's queryset for a staff user and is the base class's queryset narrowed to
  the articles of status \<open>"published"\<close> for every other user. \<open>perform_create\<close> creates
  what the base class's \<open>perform_create\<close> creates from the validated data with \<open>author\<close>
  set to the request's user and every other key as validated.
\<close>

theorem view_narrows_for_readers_and_sets_author:
  "(is_staff (user req) \<longrightarrow> get_queryset req d = ModelViewSet_get_queryset d)
   \<and> (\<not> is_staff (user req) \<longrightarrow>
        get_queryset req d =
          filter (\<lambda>a. attrs a (str ''status'') = PStr (str ''published''))
            (ModelViewSet_get_queryset d))
   \<and> perform_create create_fn req validated_data d =
       ModelViewSet_perform_create create_fn
         (dict_merge validated_data [(str ''author'', PInt (user_id (user req)))]) d
   \<and> map_of (dict_merge validated_data [(str ''author'', PInt (user_id (user req)))])
        (str ''author'') = Some (PInt (user_id (user req)))
   \<and> (\<forall>k. k \<noteq> str ''author'' \<longrightarrow>
        map_of (dict_merge validated_data [(str ''author'', PInt (user_id (user req)))]) k
          = map_of validated_data k)"
  by (simp add: get_queryset_def perform_create_def ModelViewSet_perform_create_def
      serializer_save_def map_of_dict_merge_single map_of_dict_merge_other)

theorem view_narrows_for_readers_and_sets_author_witness:
  "is_staff (user staff_request)
   \<and> get_queryset staff_request example_db = ModelViewSet_get_queryset example_db
   \<and> \<not> is_staff (user reader_request)
   \<and> get_queryset reader_request example_db =
       filter (\<lambda>a. attrs a (str ''status'') = PStr (str ''published''))
         (ModelViewSet_get_queryset example_db)
   \<and> str ''title'' \<noteq> str ''author''
   \<and> map_of (dict_merge example_data
                [(str ''author'', PInt (user_id (user reader_request)))]) (str ''title'')
       = map_of example_data (str ''title'')"
proof -
  have a: "is_staff (user staff_request)" and b: "\<not> is_staff (user reader_request)"
    by (simp_all add: staff_request_def reader_request_def)
  have c: "str ''title'' \<noteq> str ''author''"
    by simp
  from a view_narrows_for_readers_and_sets_author [of staff_request example_db]
  have 1: "get_queryset staff_request example_db = ModelViewSet_get_queryset example_db"
    by blast
  from b c view_narrows_for_readers_and_sets_author [of reader_request example_db _ example_data]
  have 2: "get_queryset reader_request example_db =
       filter (\<lambda>a. attrs a (str ''status'') = PStr (str ''published''))
         (ModelViewSet_get_queryset example_db)"
    and 3: "map_of (dict_merge example_data
                [(str ''author'', PInt (user_id (user reader_request)))]) (str ''title'')
       = map_of example_data (str ''title'')"
    by blast+
  from a b c 1 2 3 show ?thesis by blast
qed

section \<open>The ORM primitives\<close>

lemma le_fold_max: "(a::int) \<le> fold max xs a"
proof (induction xs arbitrary: a)
  case Nil
  show ?case by simp
next
  case (Cons x xs)
  have "a \<le> max x a" by simp
  also have "max x a \<le> fold max xs (max x a)" by (rule Cons.IH)
  finally show ?case by simp
qed

lemma mem_le_fold_max: "x \<in> set xs \<Longrightarrow> (x::int) \<le> fold max xs a"
proof (induction xs arbitrary: a)
  case Nil
  then show ?case by simp
next
  case (Cons y ys)
  show ?case
  proof (cases "x = y")
    case True
    have "x \<le> max y a" using True by simp
    also have "\<dots> \<le> fold max ys (max y a)" by (rule le_fold_max)
    finally show ?thesis by simp
  next
    case False
    with Cons.prems have "x \<in> set ys" by simp
    then show ?thesis using Cons.IH by simp
  qed
qed

lemma fresh_pk_notin: "fresh_pk rows \<notin> pk ` set rows"
proof
  assume "fresh_pk rows \<in> pk ` set rows"
  then have "fresh_pk rows \<in> set (map pk rows)" by simp
  then have "fresh_pk rows \<le> fold max (map pk rows) 0" by (rule mem_le_fold_max)
  then show False by (simp add: fresh_pk_def)
qed

lemma fold_upd_distinct:
  "distinct (map fst kw) \<Longrightarrow>
     fold (\<lambda>kv f. f(fst kv := snd kv)) kw f0 k =
       (case map_of kw k of None \<Rightarrow> f0 k | Some v \<Rightarrow> v)"
proof (induction kw arbitrary: f0)
  case Nil
  show ?case by simp
next
  case (Cons p kw)
  obtain a b where p: "p = (a, b)" by (cases p)
  from Cons.prems p have d: "distinct (map fst kw)" and n: "a \<notin> fst ` set kw" by auto
  from n have none: "map_of kw a = None" by (simp add: map_of_eq_None_iff)
  have "fold (\<lambda>kv f. f(fst kv := snd kv)) (p # kw) f0 k =
          fold (\<lambda>kv f. f(fst kv := snd kv)) kw (f0(a := b)) k"
    by (simp add: p)
  also have "\<dots> = (case map_of kw k of None \<Rightarrow> (f0(a := b)) k | Some v \<Rightarrow> v)"
    by (rule Cons.IH [OF d])
  also have "\<dots> = (case map_of (p # kw) k of None \<Rightarrow> f0 k | Some v \<Rightarrow> v)"
    using none by (cases "k = a") (simp_all add: p split: option.splits)
  finally show ?case .
qed

lemma fold_setattr:
  "fold (\<lambda>kv i. setattr i (fst kv) (snd kv)) kw inst =
     inst\<lparr>attrs := fold (\<lambda>kv f. f(fst kv := snd kv)) kw (attrs inst)\<rparr>"
  by (induction kw arbitrary: inst) (simp_all add: setattr_def)

lemma filter_single_distinct:
  "distinct (map f xs) \<Longrightarrow> filter (\<lambda>x. f x = n) xs = [] \<or> (\<exists>t. filter (\<lambda>x. f x = n) xs = [t])"
proof (induction xs)
  case Nil
  show ?case by simp
next
  case (Cons x xs)
  then have d: "distinct (map f xs)" and nx: "f x \<notin> f ` set xs" by auto
  show ?case
  proof (cases "f x = n")
    case True
    from nx have "\<forall>y \<in> set xs. f y \<noteq> f x"
      by (metis imageI)
    with True have "filter (\<lambda>x. f x = n) xs = []"
      by (simp add: filter_empty_conv)
    with True show ?thesis by simp
  next
    case False
    with Cons.IH [OF d] show ?thesis by simp
  qed
qed

lemma matches_name [simp]: "matches [(k, n)] = (\<lambda>row. attrs row k = n)"
  by (rule ext) (simp add: matches_def)

lemma get_or_create_name:
  assumes "tag_table_ok rows"
  shows "\<exists>rows' t c. get_or_create td rows [(str ''name'', n)] = Inr (rows', t, c)
           \<and> attrs t (str ''name'') = n \<and> t \<in> set rows' \<and> tag_table_ok rows'
           \<and> set rows \<subseteq> set rows'
           \<and> (\<forall>r \<in> set rows'. r \<in> set rows \<or> r = t)"
proof -
  let ?f = "\<lambda>t. attrs t (str ''name'')"
  from assms have dn: "distinct (map ?f rows)" and dp: "distinct (map pk rows)"
    by (simp_all add: tag_table_ok_def)
  from filter_single_distinct [OF dn, of n]
  consider (none) "filter (\<lambda>x. ?f x = n) rows = []"
    | (one) t where "filter (\<lambda>x. ?f x = n) rows = [t]"
    by blast
  then show ?thesis
  proof cases
    case none
    let ?t = "\<lparr>pk = fresh_pk rows, attrs = td(str ''name'' := n)\<rparr>"
    have g: "get_or_create td rows [(str ''name'', n)] = Inr (rows @ [?t], ?t, True)"
      using none by (simp add: get_or_create_def objects_create_def Let_def)
    from none have nn: "n \<notin> ?f ` set rows"
      by (auto simp: filter_empty_conv)
    have "tag_table_ok (rows @ [?t])"
      using dn dp nn fresh_pk_notin [of rows] by (simp add: tag_table_ok_def)
    with g show ?thesis by auto
  next
    case one
    then have g: "get_or_create td rows [(str ''name'', n)] = Inr (rows, t, False)"
      by (simp add: get_or_create_def)
    from one have "t \<in> set (filter (\<lambda>x. ?f x = n) rows)" by simp
    then have "t \<in> set rows" "?f t = n" by simp_all
    with g assms show ?thesis by auto
  qed
qed

section \<open>The loop that gets or creates the tags\<close>

lemma is_tag_dataD: "is_tag_data v \<Longrightarrow> \<exists>n. v = PDict [(str ''name'', n)]"
  by (erule is_tag_data.elims) simp_all

lemma tags_add_simps [simp]:
  "article_rows (tags_add d a t) = article_rows d"
  "tag_rows (tags_add d a t) = tag_rows d"
  "set (article_tags (tags_add d a t)) = insert (pk a, pk t) (set (article_tags d))"
  by (auto simp: tags_add_def)

lemma tag_table_ok_name_inj:
  "tag_table_ok rows \<Longrightarrow> t \<in> set rows \<Longrightarrow> t' \<in> set rows \<Longrightarrow>
     attrs t' (str ''name'') = attrs t (str ''name'') \<Longrightarrow> t' = t"
  by (auto simp: tag_table_ok_def distinct_map dest: inj_onD)

lemma tag_table_ok_pk_inj:
  "tag_table_ok rows \<Longrightarrow> t \<in> set rows \<Longrightarrow> t' \<in> set rows \<Longrightarrow> pk t' = pk t \<Longrightarrow> t' = t"
  by (auto simp: tag_table_ok_def distinct_map dest: inj_onD)

lemma attach_tags_ok:
  assumes "list_all is_tag_data tds" and "tag_table_ok (tag_rows d)"
  shows "\<exists>d'. attach_tags td d a tds = (d', Inr ())
     \<and> article_rows d' = article_rows d
     \<and> tag_table_ok (tag_rows d')
     \<and> set (tag_rows d) \<subseteq> set (tag_rows d')
     \<and> (\<forall>t \<in> set (tag_rows d'). t \<in> set (tag_rows d)
            \<or> attrs t (str ''name'') \<in> set (requested_names tds))
     \<and> (\<forall>n \<in> set (requested_names tds).
            \<exists>t \<in> set (tag_rows d'). attrs t (str ''name'') = n)
     \<and> set (article_tags d') =
         set (article_tags d)
         \<union> (\<lambda>t. (pk a, pk t)) `
             {t \<in> set (tag_rows d'). attrs t (str ''name'') \<in> set (requested_names tds)}"
  using assms
proof (induction tds arbitrary: d)
  case Nil
  then show ?case by simp
next
  case (Cons tag_data rest)
  from Cons.prems(1) have "is_tag_data tag_data" and rest: "list_all is_tag_data rest"
    by simp_all
  then obtain n where td_eq: "tag_data = PDict [(str ''name'', n)]"
    using is_tag_dataD by blast
  from get_or_create_name [OF Cons.prems(2), of td n]
  obtain rows' t c where
    g: "get_or_create td (tag_rows d) [(str ''name'', n)] = Inr (rows', t, c)"
    and tn: "attrs t (str ''name'') = n" and tin: "t \<in> set rows'"
    and ok': "tag_table_ok rows'" and sub: "set (tag_rows d) \<subseteq> set rows'"
    and new: "\<forall>r \<in> set rows'. r \<in> set (tag_rows d) \<or> r = t"
    by blast
  have rn: "requested_names (tag_data # rest) = n # requested_names rest"
    by (simp add: td_eq dict_get_def)
  let ?d1 = "tags_add (d\<lparr>tag_rows := rows'\<rparr>) a t"
  have ok1: "tag_table_ok (tag_rows ?d1)" using ok' by simp
  from Cons.IH [OF rest ok1]
  obtain d' where
    run: "attach_tags td ?d1 a rest = (d', Inr ())"
    and ar: "article_rows d' = article_rows ?d1"
    and okd: "tag_table_ok (tag_rows d')"
    and sub': "set (tag_rows ?d1) \<subseteq> set (tag_rows d')"
    and new': "\<forall>t \<in> set (tag_rows d'). t \<in> set (tag_rows ?d1)
                 \<or> attrs t (str ''name'') \<in> set (requested_names rest)"
    and ex': "\<forall>n \<in> set (requested_names rest).
                 \<exists>t \<in> set (tag_rows d'). attrs t (str ''name'') = n"
    and rel: "set (article_tags d') =
         set (article_tags ?d1)
         \<union> (\<lambda>t. (pk a, pk t)) `
             {t \<in> set (tag_rows d'). attrs t (str ''name'') \<in> set (requested_names rest)}"
    by blast
  have 1: "attach_tags td d a (tag_data # rest) = (d', Inr ())"
    using g run by (simp add: td_eq)
  have 2: "article_rows d' = article_rows d" using ar by simp
  have 3: "set (tag_rows d) \<subseteq> set (tag_rows d')" using sub sub' by auto
  have tin': "t \<in> set (tag_rows d')" using tin sub' by auto
  have 4: "\<forall>u \<in> set (tag_rows d'). u \<in> set (tag_rows d)
            \<or> attrs u (str ''name'') \<in> set (requested_names (tag_data # rest))"
  proof
    fix u assume "u \<in> set (tag_rows d')"
    with new' have "u \<in> set rows' \<or> attrs u (str ''name'') \<in> set (requested_names rest)"
      by simp
    with new tn show "u \<in> set (tag_rows d)
            \<or> attrs u (str ''name'') \<in> set (requested_names (tag_data # rest))"
      by (auto simp: rn)
  qed
  have same: "\<And>u. u \<in> set (tag_rows d') \<Longrightarrow> attrs u (str ''name'') = n \<Longrightarrow> u = t"
    using tag_table_ok_name_inj [OF okd tin'] tn by simp
  have 5: "set (article_tags d') =
         set (article_tags d)
         \<union> (\<lambda>t. (pk a, pk t)) `
             {t \<in> set (tag_rows d').
                attrs t (str ''name'') \<in> set (requested_names (tag_data # rest))}"
    (is "?L = ?R")
  proof (rule set_eqI)
    fix p
    show "p \<in> ?L \<longleftrightarrow> p \<in> ?R"
    proof
      assume "p \<in> ?L"
      with rel have "p = (pk a, pk t) \<or> p \<in> set (article_tags d)
         \<or> p \<in> (\<lambda>t. (pk a, pk t)) `
             {t \<in> set (tag_rows d'). attrs t (str ''name'') \<in> set (requested_names rest)}"
        by auto
      then show "p \<in> ?R" using tin' tn by (auto simp: rn)
    next
      assume "p \<in> ?R"
      then consider "p \<in> set (article_tags d)"
        | u where "u \<in> set (tag_rows d')" "p = (pk a, pk u)"
                  "attrs u (str ''name'') = n \<or> attrs u (str ''name'') \<in> set (requested_names rest)"
        by (auto simp: rn)
      then show "p \<in> ?L"
      proof cases
        case 1
        then show ?thesis using rel by simp
      next
        case 2
        then show ?thesis using rel same by auto
      qed
    qed
  qed
  have 6: "\<forall>m \<in> set (requested_names (tag_data # rest)).
             \<exists>t \<in> set (tag_rows d'). attrs t (str ''name'') = m"
    using ex' tin' tn by (auto simp: rn)
  from 1 2 okd 3 4 5 6 show ?case by blast
qed

section \<open>Nested create and update\<close>

lemma map_of_filter_key:
  "map_of (filter (\<lambda>kv. fst kv \<noteq> k0) vd) k = (if k = k0 then None else map_of vd k)"
  by (induction vd) auto

lemma validated_tags:
  assumes "validated vd"
  shows "list_all is_tag_data (tags_list vd)"
    and "fst (dict_pop vd (str ''tags'') (PList [])) = PList (tags_list vd)"
    and "distinct (map fst (snd (dict_pop vd (str ''tags'') dflt)))"
proof -
  from assms have shape: "case map_of vd (str ''tags'') of
          None \<Rightarrow> True
        | Some (PList tds) \<Rightarrow> list_all is_tag_data tds
        | Some _ \<Rightarrow> False"
    and dist: "distinct (map fst vd)"
    by (simp_all add: validated_def)
  show "distinct (map fst (snd (dict_pop vd (str ''tags'') dflt)))"
    using dist by (simp add: dict_pop_def distinct_map_filter)
  show "list_all is_tag_data (tags_list vd)"
  proof (cases "map_of vd (str ''tags'')")
    case None
    then show ?thesis by (simp add: tags_list_def)
  next
    case (Some v)
    with shape show ?thesis by (cases v) (simp_all add: tags_list_def)
  qed
  show "fst (dict_pop vd (str ''tags'') (PList [])) = PList (tags_list vd)"
  proof (cases "map_of vd (str ''tags'')")
    case None
    then show ?thesis by (simp add: tags_list_def dict_pop_def)
  next
    case (Some v)
    with shape show ?thesis by (cases v) (simp_all add: tags_list_def dict_pop_def)
  qed
qed

lemma save_props:
  "i \<in> set (save rows i)"
  "pk r \<noteq> pk i \<Longrightarrow> r \<in> set (save rows i) \<longleftrightarrow> r \<in> set rows"
  "pk ` set (save rows i) = insert (pk i) (pk ` set rows)"
  by (auto simp: save_def list_ex_iff image_iff)

lemma save_distinct: "distinct (map pk rows) \<Longrightarrow> distinct (map pk (save rows i))"
proof -
  assume d: "distinct (map pk rows)"
  have m: "map pk (map (\<lambda>r. if pk r = pk i then i else r) rows) = map pk rows"
    by (induction rows) simp_all
  show ?thesis
  proof (cases "list_ex (\<lambda>r. pk r = pk i) rows")
    case True
    then have "save rows i = map (\<lambda>r. if pk r = pk i then i else r) rows"
      by (simp add: save_def)
    with m d show ?thesis by (simp only:)
  next
    case False
    then have "save rows i = rows @ [i]" and "pk i \<notin> pk ` set rows"
      by (auto simp: save_def list_ex_iff)
    with d show ?thesis by simp
  qed
qed

lemma tags_of_names:
  assumes ok: "tag_table_ok (tag_rows d')"
    and rel: "set (article_tags d') =
               R \<union> (\<lambda>t. (pk a, pk t)) `
                     {t \<in> set (tag_rows d'). attrs t (str ''name'') \<in> N}"
    and none: "pk a \<notin> fst ` R"
    and ex: "\<forall>n \<in> N. \<exists>t \<in> set (tag_rows d'). attrs t (str ''name'') = n"
  shows "set (map (\<lambda>t. attrs t (str ''name'')) (tags_of d' a)) = N"
proof (rule set_eqI)
  fix n
  show "n \<in> set (map (\<lambda>t. attrs t (str ''name'')) (tags_of d' a)) \<longleftrightarrow> n \<in> N"
  proof
    assume "n \<in> set (map (\<lambda>t. attrs t (str ''name'')) (tags_of d' a))"
    then obtain t where t: "t \<in> set (tag_rows d')" "(pk a, pk t) \<in> set (article_tags d')"
      and n: "n = attrs t (str ''name'')"
      by (auto simp: tags_of_def)
    from t(2) rel none obtain u where u: "u \<in> set (tag_rows d')"
      "attrs u (str ''name'') \<in> N" "pk u = pk t"
      by force
    from tag_table_ok_pk_inj [OF ok t(1) u(1) u(3)] have "u = t" .
    with u n show "n \<in> N" by simp
  next
    assume "n \<in> N"
    with ex obtain t where t: "t \<in> set (tag_rows d')" "attrs t (str ''name'') = n"
      by blast
    with \<open>n \<in> N\<close> rel have "(pk a, pk t) \<in> set (article_tags d')" by auto
    with t show "n \<in> set (map (\<lambda>t. attrs t (str ''name'')) (tags_of d' a))"
      by (auto simp: tags_of_def)
  qed
qed

lemma create_ok:
  assumes wf: "wf_db d" and v: "validated vd"
  shows "\<exists>d' article. create ad td d vd = (d', Inr article)
     \<and> article_rows d' = article_rows d @ [article]
     \<and> pk article \<notin> pk ` set (article_rows d)
     \<and> (\<forall>k. attrs article k =
            (if k = str ''tags'' then ad k
             else case map_of vd k of None \<Rightarrow> ad k | Some x \<Rightarrow> x))
     \<and> set (map (\<lambda>t. attrs t (str ''name'')) (tags_of d' article))
         = set (requested_names (tags_list vd))
     \<and> set (tag_rows d) \<subseteq> set (tag_rows d')
     \<and> (\<forall>t \<in> set (tag_rows d'). t \<in> set (tag_rows d)
            \<or> attrs t (str ''name'') \<in> set (requested_names (tags_list vd)))
     \<and> (\<forall>b t. b \<noteq> pk article \<longrightarrow>
            ((b, t) \<in> set (article_tags d') \<longleftrightarrow> (b, t) \<in> set (article_tags d)))
     \<and> wf_db d'"
proof -
  let ?vd' = "snd (dict_pop vd (str ''tags'') (PList []))"
  let ?article = "\<lparr>pk = fresh_pk (article_rows d),
                   attrs = fold (\<lambda>kv f. f(fst kv := snd kv)) ?vd' ad\<rparr>"
  let ?d1 = "d\<lparr>article_rows := article_rows d @ [?article]\<rparr>"
  let ?tds = "tags_list vd"
  note vt = validated_tags [OF v]
  from wf have ok: "tag_table_ok (tag_rows ?d1)" by (simp add: wf_db_def)
  from attach_tags_ok [OF vt(1) ok, of td ?article]
  obtain d' where
    run: "attach_tags td ?d1 ?article ?tds = (d', Inr ())"
    and ar: "article_rows d' = article_rows ?d1"
    and okd: "tag_table_ok (tag_rows d')"
    and sub: "set (tag_rows ?d1) \<subseteq> set (tag_rows d')"
    and new: "\<forall>t \<in> set (tag_rows d'). t \<in> set (tag_rows ?d1)
                 \<or> attrs t (str ''name'') \<in> set (requested_names ?tds)"
    and ex: "\<forall>n \<in> set (requested_names ?tds).
                 \<exists>t \<in> set (tag_rows d'). attrs t (str ''name'') = n"
    and rel: "set (article_tags d') =
         set (article_tags ?d1)
         \<union> (\<lambda>t. (pk ?article, pk t)) `
             {t \<in> set (tag_rows d'). attrs t (str ''name'') \<in> set (requested_names ?tds)}"
    by blast
  have 1: "create ad td d vd = (d', Inr ?article)"
    using run by (simp add: create_def case_prod_beta vt(2) objects_create_def Let_def)
  have 2: "article_rows d' = article_rows d @ [?article]" using ar by simp
  have fresh: "pk ?article \<notin> pk ` set (article_rows d)"
    using fresh_pk_notin [of "article_rows d"] by simp
  have 4: "\<forall>k. attrs ?article k =
            (if k = str ''tags'' then ad k
             else case map_of vd k of None \<Rightarrow> ad k | Some x \<Rightarrow> x)"
    using fold_upd_distinct [OF vt(3), of "PList []" ad]
    by (simp add: dict_pop_def map_of_filter_key)
  from wf fresh have none: "pk ?article \<notin> fst ` set (article_tags ?d1)"
    by (auto simp: wf_db_def)
  have 5: "set (map (\<lambda>t. attrs t (str ''name'')) (tags_of d' ?article))
         = set (requested_names ?tds)"
    by (rule tags_of_names [OF okd rel none ex])
  have 6: "set (tag_rows d) \<subseteq> set (tag_rows d')" using sub by simp
  have 7: "\<forall>t \<in> set (tag_rows d'). t \<in> set (tag_rows d)
            \<or> attrs t (str ''name'') \<in> set (requested_names ?tds)"
    using new by simp
  have 8: "\<forall>b t. b \<noteq> pk ?article \<longrightarrow>
            ((b, t) \<in> set (article_tags d') \<longleftrightarrow> (b, t) \<in> set (article_tags d))"
    using rel by auto
  have 9: "wf_db d'"
    unfolding wf_db_def
  proof (intro conjI)
    show "distinct (map pk (article_rows d'))"
      using wf fresh by (simp add: 2 wf_db_def)
    show "tag_table_ok (tag_rows d')" by (rule okd)
    show "fst ` set (article_tags d') \<subseteq> pk ` set (article_rows d')"
      using wf by (auto simp: rel 2 wf_db_def)
    from wf have "snd ` set (article_tags d) \<subseteq> pk ` set (tag_rows d)"
      by (simp add: wf_db_def)
    also have "\<dots> \<subseteq> pk ` set (tag_rows d')"
      using 6 by (rule image_mono)
    finally have old: "snd ` set (article_tags d) \<subseteq> pk ` set (tag_rows d')" .
    have "snd ` set (article_tags d') =
            snd ` set (article_tags d)
            \<union> pk ` {t \<in> set (tag_rows d').
                        attrs t (str ''name'') \<in> set (requested_names ?tds)}"
      by (simp add: rel image_Un image_image)
    with old show "snd ` set (article_tags d') \<subseteq> pk ` set (tag_rows d')"
      by auto
  qed
  from 1 2 fresh 4 5 6 7 8 9 show ?thesis by blast
qed

lemma tags_clear_simps [simp]:
  "article_rows (tags_clear d a) = article_rows d"
  "tag_rows (tags_clear d a) = tag_rows d"
  "set (article_tags (tags_clear d a)) = {p \<in> set (article_tags d). fst p \<noteq> pk a}"
  by (auto simp: tags_clear_def)

lemma update_ok:
  assumes wf: "wf_db d" and v: "validated vd"
    and tg: "map_of vd (str ''tags'') = Some (PList tds)"
  shows "\<exists>d' instance'. update td d instance vd = (d', Inr instance')
     \<and> pk instance' = pk instance
     \<and> (\<forall>k. attrs instance' k =
            (if k = str ''tags'' then attrs instance k
             else case map_of vd k of None \<Rightarrow> attrs instance k | Some x \<Rightarrow> x))
     \<and> instance' \<in> set (article_rows d')
     \<and> (\<forall>r. pk r \<noteq> pk instance \<longrightarrow>
            (r \<in> set (article_rows d') \<longleftrightarrow> r \<in> set (article_rows d)))
     \<and> set (map (\<lambda>t. attrs t (str ''name'')) (tags_of d' instance'))
         = set (requested_names tds)
     \<and> set (tag_rows d) \<subseteq> set (tag_rows d')
     \<and> (\<forall>t \<in> set (tag_rows d'). t \<in> set (tag_rows d)
            \<or> attrs t (str ''name'') \<in> set (requested_names tds))
     \<and> (\<forall>b t. b \<noteq> pk instance \<longrightarrow>
            ((b, t) \<in> set (article_tags d') \<longleftrightarrow> (b, t) \<in> set (article_tags d)))
     \<and> wf_db d'"
proof -
  let ?vd' = "snd (dict_pop vd (str ''tags'') PNone)"
  let ?i = "instance\<lparr>attrs := fold (\<lambda>kv f. f(fst kv := snd kv)) ?vd' (attrs instance)\<rparr>"
  let ?d1 = "d\<lparr>article_rows := save (article_rows d) ?i\<rparr>"
  let ?d2 = "tags_clear ?d1 ?i"
  note vt = validated_tags [OF v]
  from tg have tl: "tags_list vd = tds" by (simp add: tags_list_def)
  from tg have popped: "fst (dict_pop vd (str ''tags'') PNone) = PList tds"
    by (simp add: dict_pop_def)
  have pki: "pk ?i = pk instance" by simp
  from wf have ok: "tag_table_ok (tag_rows ?d2)" by (simp add: wf_db_def)
  from vt(1) tl have shape: "list_all is_tag_data tds" by simp
  from attach_tags_ok [OF shape ok, of td ?i]
  obtain d' where
    run: "attach_tags td ?d2 ?i tds = (d', Inr ())"
    and ar: "article_rows d' = article_rows ?d2"
    and okd: "tag_table_ok (tag_rows d')"
    and sub: "set (tag_rows ?d2) \<subseteq> set (tag_rows d')"
    and new: "\<forall>t \<in> set (tag_rows d'). t \<in> set (tag_rows ?d2)
                 \<or> attrs t (str ''name'') \<in> set (requested_names tds)"
    and ex: "\<forall>n \<in> set (requested_names tds).
                 \<exists>t \<in> set (tag_rows d'). attrs t (str ''name'') = n"
    and rel: "set (article_tags d') =
         set (article_tags ?d2)
         \<union> (\<lambda>t. (pk ?i, pk t)) `
             {t \<in> set (tag_rows d'). attrs t (str ''name'') \<in> set (requested_names tds)}"
    by blast
  have 1: "update td d instance vd = (d', Inr ?i)"
    using run by (simp add: update_def case_prod_beta popped fold_setattr Let_def)
  have 3: "\<forall>k. attrs ?i k =
            (if k = str ''tags'' then attrs instance k
             else case map_of vd k of None \<Rightarrow> attrs instance k | Some x \<Rightarrow> x)"
    using fold_upd_distinct [OF vt(3), of PNone "attrs instance"]
    by (simp add: dict_pop_def map_of_filter_key)
  have rows: "article_rows d' = save (article_rows d) ?i" using ar by simp
  have 4: "?i \<in> set (article_rows d')" by (simp only: rows save_props(1))
  have 5: "\<forall>r. pk r \<noteq> pk instance \<longrightarrow>
            (r \<in> set (article_rows d') \<longleftrightarrow> r \<in> set (article_rows d))"
    using save_props(2) [of _ ?i "article_rows d"] by (simp add: rows)
  have none: "pk ?i \<notin> fst ` set (article_tags ?d2)"
    by (auto simp del: obj.simps)
  have 6: "set (map (\<lambda>t. attrs t (str ''name'')) (tags_of d' ?i)) = set (requested_names tds)"
    by (rule tags_of_names [OF okd rel none ex])
  have 7: "set (tag_rows d) \<subseteq> set (tag_rows d')" using sub by simp
  have 8: "\<forall>t \<in> set (tag_rows d'). t \<in> set (tag_rows d)
            \<or> attrs t (str ''name'') \<in> set (requested_names tds)"
    using new by simp
  have rel': "set (article_tags d') =
         {p \<in> set (article_tags d). fst p \<noteq> pk instance}
         \<union> (\<lambda>t. (pk instance, pk t)) `
             {t \<in> set (tag_rows d'). attrs t (str ''name'') \<in> set (requested_names tds)}"
    using rel by simp
  have 9: "\<forall>b t. b \<noteq> pk instance \<longrightarrow>
            ((b, t) \<in> set (article_tags d') \<longleftrightarrow> (b, t) \<in> set (article_tags d))"
    by (auto simp: rel')
  have 10: "wf_db d'"
    unfolding wf_db_def
  proof (intro conjI)
    show "distinct (map pk (article_rows d'))"
      using wf by (simp add: rows save_distinct wf_db_def)
    show "tag_table_ok (tag_rows d')" by (rule okd)
    have pks: "pk ` set (article_rows d') = insert (pk instance) (pk ` set (article_rows d))"
      using save_props(3) [of "article_rows d" ?i] by (simp add: rows)
    from wf have "fst ` set (article_tags d) \<subseteq> pk ` set (article_rows d)"
      by (simp add: wf_db_def)
    then show "fst ` set (article_tags d') \<subseteq> pk ` set (article_rows d')"
      by (auto simp: rel' pks)
    from wf have "snd ` set (article_tags d) \<subseteq> pk ` set (tag_rows d)"
      by (simp add: wf_db_def)
    also have "\<dots> \<subseteq> pk ` set (tag_rows d')"
      using 7 by (rule image_mono)
    finally have old: "snd ` set (article_tags d) \<subseteq> pk ` set (tag_rows d')" .
    have "snd ` set (article_tags d') \<subseteq>
            snd ` set (article_tags d)
            \<union> pk ` {t \<in> set (tag_rows d').
                        attrs t (str ''name'') \<in> set (requested_names tds)}"
      by (auto simp: rel' image_iff)
    moreover have "pk ` {t \<in> set (tag_rows d').
                        attrs t (str ''name'') \<in> set (requested_names tds)}
                    \<subseteq> pk ` set (tag_rows d')"
      by blast
    ultimately show "snd ` set (article_tags d') \<subseteq> pk ` set (tag_rows d')"
      using old by blast
  qed
  from 1 pki 3 4 5 6 7 8 9 10 show ?thesis by blast
qed

text \<open>
  C7. On a database that satisfies its integrity constraints and for every validated
  input, \<open>create\<close> returns a new article: it is appended to the articles under a new
  primary key, its attributes are the model's defaults overwritten by the validated
  fields other than \<open>tags\<close>, and the tags related to it are exactly those named in
  the popped tags list, each found in the tag table or added to it; the tags and the
  relations of the other articles stay. When the input has a tags list, \<open>update\<close>
  returns the instance with the validated fields other than \<open>tags\<close> applied, saves it, and
  replaces the tags related to it by exactly those named in the list, found or added in
  the same way. Both leave the database's integrity intact.
\<close>

theorem nested_create_update_attach_tags:
  assumes "wf_db d" and "validated vd"
  shows "(\<exists>d' article. create ad td d vd = (d', Inr article)
     \<and> article_rows d' = article_rows d @ [article]
     \<and> pk article \<notin> pk ` set (article_rows d)
     \<and> (\<forall>k. attrs article k =
            (if k = str ''tags'' then ad k
             else case map_of vd k of None \<Rightarrow> ad k | Some x \<Rightarrow> x))
     \<and> set (map (\<lambda>t. attrs t (str ''name'')) (tags_of d' article))
         = set (requested_names (tags_list vd))
     \<and> set (tag_rows d) \<subseteq> set (tag_rows d')
     \<and> (\<forall>t \<in> set (tag_rows d'). t \<in> set (tag_rows d)
            \<or> attrs t (str ''name'') \<in> set (requested_names (tags_list vd)))
     \<and> (\<forall>b t. b \<noteq> pk article \<longrightarrow>
            ((b, t) \<in> set (article_tags d') \<longleftrightarrow> (b, t) \<in> set (article_tags d)))
     \<and> wf_db d')
   \<and> (\<forall>tds. map_of vd (str ''tags'') = Some (PList tds) \<longrightarrow>
       (\<exists>d' instance'. update td d instance vd = (d', Inr instance')
     \<and> pk instance' = pk instance
     \<and> (\<forall>k. attrs instance' k =
            (if k = str ''tags'' then attrs instance k
             else case map_of vd k of None \<Rightarrow> attrs instance k | Some x \<Rightarrow> x))
     \<and> instance' \<in> set (article_rows d')
     \<and> (\<forall>r. pk r \<noteq> pk instance \<longrightarrow>
            (r \<in> set (article_rows d') \<longleftrightarrow> r \<in> set (article_rows d)))
     \<and> set (map (\<lambda>t. attrs t (str ''name'')) (tags_of d' instance'))
         = set (requested_names tds)
     \<and> set (tag_rows d) \<subseteq> set (tag_rows d')
     \<and> (\<forall>t \<in> set (tag_rows d'). t \<in> set (tag_rows d)
            \<or> attrs t (str ''name'') \<in> set (requested_names tds))
     \<and> (\<forall>b t. b \<noteq> pk instance \<longrightarrow>
            ((b, t) \<in> set (article_tags d') \<longleftrightarrow> (b, t) \<in> set (article_tags d)))
     \<and> wf_db d'))"
proof (intro conjI allI impI)
  show "\<exists>d' article. create ad td d vd = (d', Inr article)
     \<and> article_rows d' = article_rows d @ [article]
     \<and> pk article \<notin> pk ` set (article_rows d)
     \<and> (\<forall>k. attrs article k =
            (if k = str ''tags'' then ad k
             else case map_of vd k of None \<Rightarrow> ad k | Some x \<Rightarrow> x))
     \<and> set (map (\<lambda>t. attrs t (str ''name'')) (tags_of d' article))
         = set (requested_names (tags_list vd))
     \<and> set (tag_rows d) \<subseteq> set (tag_rows d')
     \<and> (\<forall>t \<in> set (tag_rows d'). t \<in> set (tag_rows d)
            \<or> attrs t (str ''name'') \<in> set (requested_names (tags_list vd)))
     \<and> (\<forall>b t. b \<noteq> pk article \<longrightarrow>
            ((b, t) \<in> set (article_tags d') \<longleftrightarrow> (b, t) \<in> set (article_tags d)))
     \<and> wf_db d'"
    using assms by (rule create_ok)
next
  fix tds
  assume "map_of vd (str ''tags'') = Some (PList tds)"
  with assms show "\<exists>d' instance'. update td d instance vd = (d', Inr instance')
     \<and> pk instance' = pk instance
     \<and> (\<forall>k. attrs instance' k =
            (if k = str ''tags'' then attrs instance k
             else case map_of vd k of None \<Rightarrow> attrs instance k | Some x \<Rightarrow> x))
     \<and> instance' \<in> set (article_rows d')
     \<and> (\<forall>r. pk r \<noteq> pk instance \<longrightarrow>
            (r \<in> set (article_rows d') \<longleftrightarrow> r \<in> set (article_rows d)))
     \<and> set (map (\<lambda>t. attrs t (str ''name'')) (tags_of d' instance'))
         = set (requested_names tds)
     \<and> set (tag_rows d) \<subseteq> set (tag_rows d')
     \<and> (\<forall>t \<in> set (tag_rows d'). t \<in> set (tag_rows d)
            \<or> attrs t (str ''name'') \<in> set (requested_names tds))
     \<and> (\<forall>b t. b \<noteq> pk instance \<longrightarrow>
            ((b, t) \<in> set (article_tags d') \<longleftrightarrow> (b, t) \<in> set (article_tags d)))
     \<and> wf_db d'"
    by (rule update_ok)
qed

lemma wf_tagged_db: "wf_db tagged_db"
  by (simp add: wf_db_def tag_table_ok_def tagged_db_def draft_article_def
      published_article_def python_tag_def)

lemma validated_nested_data: "validated nested_data"
  by (simp add: validated_def nested_data_def nested_tags_def ArticleCreateSerializer_fields_def)

lemma create_example_run:
  "article_tags (fst (create no_defaults no_defaults tagged_db nested_data))
     = [(7, 1), (9, 1), (9, 2)]"
  "map pk (tag_rows (fst (create no_defaults no_defaults tagged_db nested_data))) = [1, 2]"
  "map pk (article_rows (fst (create no_defaults no_defaults tagged_db nested_data))) = [7, 8, 9]"
  by (simp_all add: create_def dict_pop_def nested_data_def nested_tags_def tagged_db_def
      objects_create_def get_or_create_def fresh_pk_def tags_add_def python_tag_def
      draft_article_def published_article_def Let_def)

lemma update_example_run:
  "article_tags (fst (update no_defaults tagged_db draft_article nested_data))
     = [(7, 1), (7, 2)]"
  "map pk (tag_rows (fst (update no_defaults tagged_db draft_article nested_data))) = [1, 2]"
  by (simp_all add: update_def dict_pop_def nested_data_def nested_tags_def tagged_db_def
      objects_create_def get_or_create_def fresh_pk_def tags_add_def tags_clear_def
      python_tag_def save_def setattr_def
      draft_article_def published_article_def Let_def)

theorem nested_create_update_attach_tags_witness:
  "wf_db tagged_db \<and> validated nested_data
   \<and> map_of nested_data (str ''tags'') = Some (PList nested_tags)
   \<and> (\<exists>d' article.
         create no_defaults no_defaults tagged_db nested_data = (d', Inr article)
         \<and> article_rows d' = [draft_article, published_article, article]
         \<and> attrs article (str ''title'') = PStr (str ''Hello world'')
         \<and> attrs article (str ''tags'') = PNone
         \<and> set (map (\<lambda>t. attrs t (str ''name'')) (tags_of d' article))
             = {PStr (str ''python''), PStr (str ''django'')}
         \<and> python_tag \<in> set (tag_rows d')
         \<and> wf_db d')
   \<and> (\<exists>d' instance'.
         update no_defaults tagged_db draft_article nested_data = (d', Inr instance')
         \<and> pk instance' = 7
         \<and> attrs instance' (str ''title'') = PStr (str ''Hello world'')
         \<and> attrs instance' (str ''status'') = PStr (str ''draft'')
         \<and> instance' \<in> set (article_rows d')
         \<and> set (map (\<lambda>t. attrs t (str ''name'')) (tags_of d' instance'))
             = {PStr (str ''python''), PStr (str ''django'')}
         \<and> wf_db d')
   \<and> article_tags (fst (create no_defaults no_defaults tagged_db nested_data))
       = [(7, 1), (9, 1), (9, 2)]
   \<and> article_tags (fst (update no_defaults tagged_db draft_article nested_data))
       = [(7, 1), (7, 2)]"
proof -
  note w = wf_tagged_db and v = validated_nested_data
  have t: "map_of nested_data (str ''tags'') = Some (PList nested_tags)"
    by (simp add: nested_data_def)
  have tl: "tags_list nested_data = nested_tags"
    by (simp add: tags_list_def t)
  have rn: "set (requested_names nested_tags) = {PStr (str ''python''), PStr (str ''django'')}"
    by (simp add: nested_tags_def dict_get_def)
  have title: "map_of nested_data (str ''title'') = Some (PStr (str ''Hello world''))"
    and status: "map_of nested_data (str ''status'') = None"
    by (simp_all add: nested_data_def)
  have rows: "article_rows tagged_db = [draft_article, published_article]"
    and tags: "tag_rows tagged_db = [python_tag]"
    by (simp_all add: tagged_db_def)
  have pkd: "pk draft_article = 7"
    and st: "attrs draft_article (str ''status'') = PStr (str ''draft'')"
    by (simp_all add: draft_article_def)
  note both = nested_create_update_attach_tags
                [OF w v, of no_defaults no_defaults draft_article]
  from both obtain d1 article where
    c: "create no_defaults no_defaults tagged_db nested_data = (d1, Inr article)"
       "article_rows d1 = article_rows tagged_db @ [article]"
       "\<forall>k. attrs article k =
            (if k = str ''tags'' then no_defaults k
             else case map_of nested_data k of None \<Rightarrow> no_defaults k | Some x \<Rightarrow> x)"
       "set (map (\<lambda>t. attrs t (str ''name'')) (tags_of d1 article))
         = set (requested_names (tags_list nested_data))"
       "set (tag_rows tagged_db) \<subseteq> set (tag_rows d1)"
       "wf_db d1"
    by blast
  have 1: "\<exists>d' article.
         create no_defaults no_defaults tagged_db nested_data = (d', Inr article)
         \<and> article_rows d' = [draft_article, published_article, article]
         \<and> attrs article (str ''title'') = PStr (str ''Hello world'')
         \<and> attrs article (str ''tags'') = PNone
         \<and> set (map (\<lambda>t. attrs t (str ''name'')) (tags_of d' article))
             = {PStr (str ''python''), PStr (str ''django'')}
         \<and> python_tag \<in> set (tag_rows d')
         \<and> wf_db d'"
    using c by (simp add: title tl rn rows tags no_defaults_def)
  from both t obtain d2 instance' where
    u: "update no_defaults tagged_db draft_article nested_data = (d2, Inr instance')"
       "pk instance' = pk draft_article"
       "\<forall>k. attrs instance' k =
            (if k = str ''tags'' then attrs draft_article k
             else case map_of nested_data k of
                    None \<Rightarrow> attrs draft_article k | Some x \<Rightarrow> x)"
       "instance' \<in> set (article_rows d2)"
       "set (map (\<lambda>t. attrs t (str ''name'')) (tags_of d2 instance'))
         = set (requested_names nested_tags)"
       "wf_db d2"
    by blast
  have 2: "\<exists>d' instance'.
         update no_defaults tagged_db draft_article nested_data = (d', Inr instance')
         \<and> pk instance' = 7
         \<and> attrs instance' (str ''title'') = PStr (str ''Hello world'')
         \<and> attrs instance' (str ''status'') = PStr (str ''draft'')
         \<and> instance' \<in> set (article_rows d')
         \<and> set (map (\<lambda>t. attrs t (str ''name'')) (tags_of d' instance'))
             = {PStr (str ''python''), PStr (str ''django'')}
         \<and> wf_db d'"
    using u by (simp add: title status rn pkd st)
  from w v t 1 2 create_example_run(1) update_example_run(1) show ?thesis
    by (intro conjI)
qed

text \<open>
  C10. When the validated data has no \<open>tags\<close> key, \<open>update\<close> applies every validated field
  to the instance, saves it, and leaves the tag table, the article-tag relation and the
  tags related to the instance as they were.
\<close>

theorem update_without_tags_keeps_tags:
  assumes "map_of vd (str ''tags'') = None" and "distinct (map fst vd)"
  shows "\<exists>d' instance'. update td d instance vd = (d', Inr instance')
     \<and> pk instance' = pk instance
     \<and> (\<forall>k. attrs instance' k =
            (case map_of vd k of None \<Rightarrow> attrs instance k | Some x \<Rightarrow> x))
     \<and> article_rows d' = save (article_rows d) instance'
     \<and> instance' \<in> set (article_rows d')
     \<and> tag_rows d' = tag_rows d
     \<and> article_tags d' = article_tags d
     \<and> tags_of d' instance' = tags_of d instance"
proof -
  let ?i = "instance\<lparr>attrs := fold (\<lambda>kv f. f(fst kv := snd kv)) vd (attrs instance)\<rparr>"
  let ?d' = "d\<lparr>article_rows := save (article_rows d) ?i\<rparr>"
  from assms(1) have "str ''tags'' \<notin> fst ` set vd"
    by (simp add: map_of_eq_None_iff)
  then have "filter (\<lambda>kv. fst kv \<noteq> str ''tags'') vd = vd"
    by (force simp: filter_id_conv)
  with assms(1) have pop: "dict_pop vd (str ''tags'') PNone = (PNone, vd)"
    by (simp add: dict_pop_def)
  have 1: "update td d instance vd = (?d', Inr ?i)"
    by (simp add: update_def pop fold_setattr Let_def)
  have 2: "\<forall>k. attrs ?i k = (case map_of vd k of None \<Rightarrow> attrs instance k | Some x \<Rightarrow> x)"
    using fold_upd_distinct [OF assms(2), of "attrs instance"] by simp
  have 3: "?i \<in> set (article_rows ?d')"
    by (simp add: save_props(1))
  have 4: "tags_of ?d' ?i = tags_of d instance"
    by (simp add: tags_of_def)
  from 1 2 3 4 show ?thesis by auto
qed

theorem update_without_tags_keeps_tags_witness:
  "map_of flat_data (str ''tags'') = None \<and> distinct (map fst flat_data)
   \<and> (\<exists>d' instance'.
         update no_defaults tagged_db draft_article flat_data = (d', Inr instance')
         \<and> pk instance' = 7
         \<and> attrs instance' (str ''title'') = PStr (str ''Hello world'')
         \<and> attrs instance' (str ''status'') = PStr (str ''draft'')
         \<and> instance' \<in> set (article_rows d')
         \<and> tag_rows d' = [python_tag]
         \<and> article_tags d' = [(7, 1)]
         \<and> tags_of d' instance' = [python_tag])"
proof -
  have a: "map_of flat_data (str ''tags'') = None" and b: "distinct (map fst flat_data)"
    by (simp_all add: flat_data_def)
  have title: "map_of flat_data (str ''title'') = Some (PStr (str ''Hello world''))"
    and status: "map_of flat_data (str ''status'') = None"
    by (simp_all add: flat_data_def)
  have before: "tags_of tagged_db draft_article = [python_tag]"
    by (simp add: tags_of_def tagged_db_def draft_article_def python_tag_def)
  have pkd: "pk draft_article = 7"
    and st: "attrs draft_article (str ''status'') = PStr (str ''draft'')"
    by (simp_all add: draft_article_def)
  have tr: "tag_rows tagged_db = [python_tag]" and rl: "article_tags tagged_db = [(7, 1)]"
    by (simp_all add: tagged_db_def)
  from update_without_tags_keeps_tags [OF a b, of no_defaults tagged_db draft_article]
  obtain d' instance' where
    u: "update no_defaults tagged_db draft_article flat_data = (d', Inr instance')"
       "pk instance' = pk draft_article"
       "\<forall>k. attrs instance' k =
            (case map_of flat_data k of None \<Rightarrow> attrs draft_article k | Some x \<Rightarrow> x)"
       "instance' \<in> set (article_rows d')"
       "tag_rows d' = tag_rows tagged_db"
       "article_tags d' = article_tags tagged_db"
       "tags_of d' instance' = tags_of tagged_db draft_article"
    by blast
  have "\<exists>d' instance'.
         update no_defaults tagged_db draft_article flat_data = (d', Inr instance')
         \<and> pk instance' = 7
         \<and> attrs instance' (str ''title'') = PStr (str ''Hello world'')
         \<and> attrs instance' (str ''status'') = PStr (str ''draft'')
         \<and> instance' \<in> set (article_rows d')
         \<and> tag_rows d' = [python_tag]
         \<and> article_tags d' = [(7, 1)]
         \<and> tags_of d' instance' = [python_tag]"
    using u by (simp add: title status before pkd st tr rl)
  with a b show ?thesis by (intro conjI)
qed

text \<open>
  Without unique tag names the loop can raise: \<open>get_or_create\<close> finds two rows. The
  article was created before the loop and stays in the database.
\<close>

lemma create_raises_on_duplicate_tag_names:
  "snd (create no_defaults no_defaults duplicate_tag_db nested_data)
     = Inl MultipleObjectsReturned
   \<and> map pk (article_rows (fst (create no_defaults no_defaults duplicate_tag_db nested_data)))
     = [1]"
  by (simp add: create_def dict_pop_def nested_data_def nested_tags_def duplicate_tag_db_def
      objects_create_def get_or_create_def fresh_pk_def python_tag_def Let_def)

section \<open>The actions of the view class\<close>

lemma by_method_Handler:
  "by_method mapping m = Handler n \<Longrightarrow> (m, n) \<in> set mapping"
  by (auto simp: by_method_def split: option.splits dest: map_of_SomeD)

lemma resolve_Handler:
  assumes "resolve extra_actions m path = Handler n"
  shows "n \<in> set exposed_actions"
proof -
  consider "path = []" | seg where "path = [seg]" | key seg where "path = [key, seg]"
    | a b c rest where "path = a # b # c # rest"
    by (cases path rule: list.exhaust; simp; metis list.exhaust)
  then show ?thesis
  proof cases
    case 1
    with assms have "(m, n) \<in> set list_route"
      by (simp add: resolve_def by_method_Handler)
    then show ?thesis by (auto simp: exposed_actions_def list_route_def)
  next
    case 2
    show ?thesis
    proof (cases "seg = ''my_articles''")
      case True
      with 2 assms have "(m, n) \<in> set [(GET, ''my_articles'')]"
        by (auto simp: resolve_def extra_actions_def action_mapping_def
            dest!: by_method_Handler)
      then show ?thesis by (simp add: exposed_actions_def extra_actions_def)
    next
      case False
      with 2 assms have "(m, n) \<in> set detail_route"
        by (auto simp: resolve_def extra_actions_def split: if_splits
            dest!: by_method_Handler)
      then show ?thesis by (auto simp: exposed_actions_def detail_route_def)
    qed
  next
    case 3
    show ?thesis
    proof (cases "seg = ''publish''")
      case True
      with 3 assms have "(m, n) \<in> set [(POST, ''publish'')]"
        by (auto simp: resolve_def extra_actions_def action_mapping_def split: if_splits
            dest!: by_method_Handler)
      then show ?thesis by (simp add: exposed_actions_def extra_actions_def)
    next
      case False
      with 3 assms show ?thesis
        by (auto simp: resolve_def extra_actions_def split: if_splits)
    qed
  next
    case 4
    with assms show ?thesis by (simp add: resolve_def)
  qed
qed

text \<open>
  C4. The view class exposes the six CRUD actions and the two extra actions \<open>publish\<close>
  (detail level, POST) and \<open>my_articles\<close> (list level, GET), and nothing else; POST on
  \<open><key>/publish/\<close> reaches \<open>publish\<close> and no other method does, GET on \<open>my_articles/\<close>
  reaches \<open>my_articles\<close> and no other method does, and the CRUD actions are reached on the
  collection and on \<open><key>/\<close> (for a key other than the word \<open>my_articles\<close>, which the
  list-level action takes).
\<close>

theorem view_exposes_crud_and_two_actions:
  "exposed_actions = [''list'', ''create'', ''retrieve'', ''update'', ''partial_update'',
                      ''destroy'', ''publish'', ''my_articles'']
   \<and> map (\<lambda>a. (action_name a, detail a, methods a)) extra_actions
       = [(''publish'', True, [POST]), (''my_articles'', False, [GET])]
   \<and> (resolve extra_actions m path = Handler n \<longrightarrow> n \<in> set exposed_actions)
   \<and> (is_lookup key \<longrightarrow>
        (resolve extra_actions m [key, ''publish''] = Handler ''publish'' \<longleftrightarrow> m = POST))
   \<and> (resolve extra_actions m [''my_articles''] = Handler ''my_articles'' \<longleftrightarrow> m = GET)
   \<and> resolve extra_actions GET [] = Handler ''list''
   \<and> resolve extra_actions POST [] = Handler ''create''
   \<and> (is_lookup key \<and> key \<noteq> ''my_articles'' \<longrightarrow>
        resolve extra_actions GET [key] = Handler ''retrieve''
        \<and> resolve extra_actions PUT [key] = Handler ''update''
        \<and> resolve extra_actions PATCH [key] = Handler ''partial_update''
        \<and> resolve extra_actions DELETE [key] = Handler ''destroy'')"
proof (intro conjI impI)
  show "exposed_actions = [''list'', ''create'', ''retrieve'', ''update'', ''partial_update'',
                      ''destroy'', ''publish'', ''my_articles'']"
    by (simp add: exposed_actions_def list_route_def detail_route_def extra_actions_def)
  show "map (\<lambda>a. (action_name a, detail a, methods a)) extra_actions
       = [(''publish'', True, [POST]), (''my_articles'', False, [GET])]"
    by (simp add: extra_actions_def)
  show "n \<in> set exposed_actions" if "resolve extra_actions m path = Handler n"
    using that by (rule resolve_Handler)
  show "resolve extra_actions m [key, ''publish''] = Handler ''publish'' \<longleftrightarrow> m = POST"
    if "is_lookup key"
    using that by (cases m) (simp_all add: resolve_def extra_actions_def action_mapping_def
        by_method_def)
  show "resolve extra_actions m [''my_articles''] = Handler ''my_articles'' \<longleftrightarrow> m = GET"
    by (cases m) (simp_all add: resolve_def extra_actions_def action_mapping_def by_method_def)
  show "resolve extra_actions GET [] = Handler ''list''"
    and "resolve extra_actions POST [] = Handler ''create''"
    by (simp_all add: resolve_def list_route_def by_method_def)
  show "resolve extra_actions GET [key] = Handler ''retrieve''"
    and "resolve extra_actions PUT [key] = Handler ''update''"
    and "resolve extra_actions PATCH [key] = Handler ''partial_update''"
    and "resolve extra_actions DELETE [key] = Handler ''destroy''"
    if "is_lookup key \<and> key \<noteq> ''my_articles''"
    using that
    by (auto simp: resolve_def extra_actions_def detail_route_def by_method_def)
qed

theorem view_exposes_crud_and_two_actions_witness:
  "is_lookup ''7'' \<and> ''7'' \<noteq> ''my_articles''
   \<and> resolve extra_actions POST [''7'', ''publish''] = Handler ''publish''
   \<and> ''publish'' \<in> set exposed_actions
   \<and> resolve extra_actions GET [''7'', ''publish''] \<noteq> Handler ''publish''
   \<and> resolve extra_actions GET [''my_articles''] = Handler ''my_articles''
   \<and> resolve extra_actions POST [''my_articles''] \<noteq> Handler ''my_articles''
   \<and> resolve extra_actions GET [''7''] = Handler ''retrieve''
   \<and> resolve extra_actions PUT [''7''] = Handler ''update''
   \<and> resolve extra_actions PATCH [''7''] = Handler ''partial_update''
   \<and> resolve extra_actions DELETE [''7''] = Handler ''destroy''"
proof -
  have k: "is_lookup ''7''" and n: "''7'' \<noteq> ''my_articles''"
    by (simp_all add: is_lookup_def)
  note post = view_exposes_crud_and_two_actions
                [of POST "[''7'', ''publish'']" "''publish''" "''7''"]
  note get = view_exposes_crud_and_two_actions
                [of GET "[''7'', ''publish'']" "''publish''" "''7''"]
  from post k have 1: "resolve extra_actions POST [''7'', ''publish''] = Handler ''publish''"
    by blast
  with post have 2: "''publish'' \<in> set exposed_actions"
    by blast
  from get k have 3: "resolve extra_actions GET [''7'', ''publish''] \<noteq> Handler ''publish''"
    by simp
  from get have 4: "resolve extra_actions GET [''my_articles''] = Handler ''my_articles''"
    by blast
  from post have 5: "resolve extra_actions POST [''my_articles''] \<noteq> Handler ''my_articles''"
    by simp
  from get k n have 6: "resolve extra_actions GET [''7''] = Handler ''retrieve''"
    "resolve extra_actions PUT [''7''] = Handler ''update''"
    "resolve extra_actions PATCH [''7''] = Handler ''partial_update''"
    "resolve extra_actions DELETE [''7''] = Handler ''destroy''"
    by blast+
  from k n 1 2 3 4 5 6 show ?thesis by (intro conjI)
qed

lemma retrieve_shadowed_by_my_articles:
  "is_lookup ''my_articles''
   \<and> resolve extra_actions GET [''my_articles''] \<noteq> Handler ''retrieve''"
  by (simp add: is_lookup_def resolve_def extra_actions_def action_mapping_def by_method_def)

section \<open>The filter declarations\<close>

lemmas filter_defs =
  all_filters_def filters_of_def meta_filters_def meta_filter_name_def
  ArticleFilter_def TrialFilter_def AdvancedTrialFilter_def Filter_def
  lookup_of_def field_of_def get_filter_def

text \<open>
  C5, as stated, fails: the filter \<open>tag\<close> of \<open>ArticleFilter\<close> declares the lookup \<open>iexact\<close>,
  which is none of exact match, case-insensitive containment, greater/less-than-or-equal
  and a custom method.
\<close>

theorem tag_filter_uses_iexact:
  "map (\<lambda>f. (param f, field_of f, lookup_of f))
       (filter (\<lambda>f. param f = ''tag'') (filters_of ArticleFilter))
     = [(''tag'', ''tags__name'', Lookup ''iexact'')]
   \<and> Lookup ''iexact'' \<notin> set [Lookup ''exact'', Lookup ''icontains'', Lookup ''gte'',
                               Lookup ''lte'', Method ''filter_has_participants'',
                               Method ''filter_search'']
   \<and> \<not> list_all (\<lambda>f. lookup_of f \<in> set [Lookup ''exact'', Lookup ''icontains'',
                               Lookup ''gte'', Lookup ''lte'',
                               Method ''filter_has_participants'',
                               Method ''filter_search'']) all_filters"
  by (simp add: filter_defs)

text \<open>
  C5, amended. Every filter declaration maps its query parameter to one of: the lookups
  \<open>exact\<close>, \<open>iexact\<close>, \<open>icontains\<close>, \<open>gte\<close>, \<open>lte\<close> and \<open>in\<close>, a date range, a
  custom method (\<open>filter_has_participants\<close>, \<open>filter_search\<close>), or an ordering. \<open>icontains\<close> is
  declared on \<open>title\<close>, \<open>author__username\<close> and \<open>principal_investigator__name\<close>; \<open>gte\<close>
  and \<open>lte\<close> on \<open>created_at\<close> and \<open>budget\<close> only; the declarations outside the claim's
  list are \<open>tag\<close>, \<open>created_date_range\<close>, \<open>ordering\<close>, \<open>status__in\<close> and \<open>status_in\<close>.
\<close>

theorem filter_lookups_drawn_from:
  "list_all (\<lambda>f. lookup_of f \<in> set [Lookup ''exact'', Lookup ''iexact'', Lookup ''icontains'',
                                     Lookup ''gte'', Lookup ''lte'', Lookup ''in'',
                                     RangeLookup, Method ''filter_has_participants'',
                                     Method ''filter_search'', Ordering]) all_filters
   \<and> map (\<lambda>f. (param f, field_of f))
         (filter (\<lambda>f. lookup_of f = Lookup ''icontains'') all_filters)
       = [(''title'', ''title''), (''author_name'', ''author__username''),
          (''pi_name'', ''principal_investigator__name'')]
   \<and> list_all (\<lambda>f. field_of f \<in> set [''created_at'', ''budget''])
         (filter (\<lambda>f. lookup_of f \<in> set [Lookup ''gte'', Lookup ''lte'']) all_filters)
   \<and> map (\<lambda>f. (param f, lookup_of f))
         (filter (\<lambda>f. filter_method f \<noteq> None) all_filters)
       = [(''has_participants'', Method ''filter_has_participants''),
          (''search'', Method ''filter_search'')]
   \<and> map (\<lambda>f. (param f, field_of f, lookup_of f))
         (filter (\<lambda>f. lookup_of f \<notin> set [Lookup ''exact'', Lookup ''icontains'',
                                           Lookup ''gte'', Lookup ''lte'']
                       \<and> filter_method f = None) all_filters)
       = [(''tag'', ''tags__name'', Lookup ''iexact''),
          (''created_date_range'', ''created_at'', RangeLookup),
          (''ordering'', ''ordering'', Ordering),
          (''status__in'', ''status'', Lookup ''in''),
          (''status_in'', ''status'', Lookup ''in'')]
   \<and> map param (filter (\<lambda>f. lookup_of f = Lookup ''exact'') all_filters)
       = [''status'', ''author'', ''status'', ''is_public'', ''budget'', ''created_year'',
          ''created_month'', ''exclude_status'']"
  by (simp add: filter_defs)

text \<open>
  C6. The query parameters of the interface contract are declared: \<open>status\<close> as a
  \<open>ChoiceFilter\<close> (\<open>ArticleFilter\<close>) and as a \<open>MultipleChoiceFilter\<close> (\<open>TrialFilter\<close>),
  \<open>budget_min\<close> as a \<open>NumberFilter\<close> with lookup \<open>gte\<close> on \<open>budget\<close>, \<open>created_after\<close> as a
  \<open>DateFilter\<close> with lookup \<open>gte\<close> on \<open>created_at\<close>, and \<open>ordering\<close> as an
  \<open>OrderingFilter\<close> over \<open>created_at\<close>, \<open>updated_at\<close> and \<open>budget\<close>.
\<close>

theorem contract_parameters_declared:
  "map_option cls (get_filter ArticleFilter ''status'') = Some ChoiceFilter
   \<and> map_option cls (get_filter TrialFilter ''status'') = Some MultipleChoiceFilter
   \<and> map_option (\<lambda>f. (cls f, field_of f, lookup_of f)) (get_filter TrialFilter ''budget_min'')
       = Some (NumberFilter, ''budget'', Lookup ''gte'')
   \<and> map_option (\<lambda>f. (cls f, field_of f, lookup_of f))
        (get_filter ArticleFilter ''created_after'')
       = Some (DateFilter, ''created_at'', Lookup ''gte'')
   \<and> map_option (\<lambda>f. (cls f, map fst (ordering_fields f), lookup_of f))
        (get_filter TrialFilter ''ordering'')
       = Some (OrderingFilter, [''created_at'', ''updated_at'', ''budget''], Ordering)"
  by (simp add: filter_defs)

end
